theory Spec2Isabelle
  imports Complex_Main "HOL-Library.Sublist"
begin

section \<open>JavaScript values used by the pipeline\<close>

text \<open>
  A JavaScript \<open>number\<close>: the finite doubles are rationals, so \<open>Num\<close> ranges over a
  superset of them; the three special values are kept apart.
\<close>

datatype number = Num rat | NaN | PosInfinity | NegInfinity

text \<open>
  A value that reaches a \<open>catch\<close> clause. Both handlers of the source only ask
  \<open>error instanceof Error\<close>: an \<open>Error\<close> instance carries its \<open>message\<close>, anything
  else is \<open>NonError\<close>.
\<close>

datatype thrown = JsError string | NonError

text \<open>\<open>error instanceof Error ? error.message : 'Unknown error'\<close>\<close>

definition errorMessage :: "thrown \<Rightarrow> string" where
  "errorMessage e = (case e of JsError m \<Rightarrow> m | NonError \<Rightarrow> ''Unknown error'')"

definition dquote :: char where
  "dquote = CHR 0x22"

subsection \<open>\<open>String.prototype.includes\<close>, \<open>Array.prototype.join\<close>, \<open>Array.prototype.slice\<close>\<close>

fun str_includes :: "string \<Rightarrow> string \<Rightarrow> bool" where
  "str_includes [] t = (t = [])"
| "str_includes (c # cs) t = (prefix t (c # cs) \<or> str_includes cs t)"

fun join :: "string \<Rightarrow> string list \<Rightarrow> string" where
  "join sep [] = []"
| "join sep [x] = x"
| "join sep (x # y # ys) = x @ sep @ join sep (y # ys)"

datatype integer_or_infinity = Integer int | PlusInf | MinusInf

text \<open>ECMAScript \<open>ToIntegerOrInfinity\<close>: \<open>NaN\<close> is 0, a finite value is truncated towards 0.\<close>

fun ToIntegerOrInfinity :: "number \<Rightarrow> integer_or_infinity" where
  "ToIntegerOrInfinity NaN = Integer 0"
| "ToIntegerOrInfinity PosInfinity = PlusInf"
| "ToIntegerOrInfinity NegInfinity = MinusInf"
| "ToIntegerOrInfinity (Num q) = Integer (if q < 0 then \<lceil>q\<rceil> else \<lfloor>q\<rfloor>)"

text \<open>
  \<open>xs.slice(0, end)\<close>: the end index is converted by \<open>ToIntegerOrInfinity\<close>; a negative
  end counts from the back of the array, and the result is clamped to the array.
\<close>

definition slice0 :: "'a list \<Rightarrow> number \<Rightarrow> 'a list" where
  "slice0 xs endArg =
     (let len = int (length xs);
          final = (case ToIntegerOrInfinity endArg of
                     MinusInf \<Rightarrow> 0
                   | Integer relativeEnd \<Rightarrow>
                       if relativeEnd < 0 then max (len + relativeEnd) 0
                       else min relativeEnd len
                   | PlusInf \<Rightarrow> len)
      in take (nat final) xs)"

subsection \<open>\<open>Promise.all\<close>\<close>

text \<open>
  The promises are given by their outcomes (\<open>Inl\<close> rejected, \<open>Inr\<close> fulfilled) in input
  order. \<open>order\<close> lists indices in the order in which the promises settle; indices it does
  not list settle afterwards, in input order. \<open>Promise.all\<close> rejects with the reason of the
  first promise to reject, and otherwise fulfils with the values in input order.
\<close>

fun first_rejected :: "nat list \<Rightarrow> ('e + 'a) list \<Rightarrow> 'e option" where
  "first_rejected [] ps = None"
| "first_rejected (i # order) ps =
     (if i < length ps
      then (case ps ! i of Inl e \<Rightarrow> Some e | Inr v \<Rightarrow> first_rejected order ps)
      else first_rejected order ps)"

fun fulfilled_values :: "('e + 'a) list \<Rightarrow> 'a list" where
  "fulfilled_values [] = []"
| "fulfilled_values (Inr v # ps) = v # fulfilled_values ps"
| "fulfilled_values (Inl e # ps) = fulfilled_values ps"

definition Promise_all :: "nat list \<Rightarrow> ('e + 'a) list \<Rightarrow> 'e + 'a list" where
  "Promise_all order ps =
     (case first_rejected (order @ [0..<length ps]) ps of
        Some e \<Rightarrow> Inl e
      | None \<Rightarrow> Inr (fulfilled_values ps))"

section \<open>Data model\<close>

record TrackInfo =
  name :: string
  spotifyUrl :: string
  previewUrls :: "string list"
  trackId :: string
  albumName :: string
  releaseDate :: string
  popularity :: number
  durationMs :: number

record SearchResult =
  success :: bool
  searchQuery :: "string option"
  results :: "TrackInfo list"
  error :: "string option"

text \<open>The catalog's objects (\<open>SpotifyApi.TrackObjectFull\<close> and its parts), fields as read by the code.\<close>

record ArtistObjectSimplified =
  artist_name :: string

record AlbumObjectSimplified =
  album_name :: string
  release_date :: string

record TrackObjectFull =
  track_name :: string
  artists :: "ArtistObjectSimplified list"
  external_urls_spotify :: string
  track_id :: string
  album :: AlbumObjectSimplified
  track_popularity :: number
  duration_ms :: number

record PagingObject =
  items :: "TrackObjectFull list"

text \<open>\<open>searchResults.body\<close>: the \<open>tracks\<close> field may be absent.\<close>

record SearchResponse =
  tracks :: "PagingObject option"

text \<open>
  A parsed element: \<open>attribs\<close> may be missing; when present it is the attribute object,
  listed in the enumeration order of \<open>Object.values\<close>.
\<close>

record element =
  attribs :: "(string \<times> string) list option"

definition Object_values :: "(string \<times> string) list \<Rightarrow> string list" where
  "Object_values attrs = map snd attrs"

text \<open>
  Everything outside the module, as the code sees it during one call: the two environment
  variables, the catalog client (credential grant, then search with the stored token), the
  HTTP client, the markup parser, and the order in which the extraction promises settle.
  A request for a given URL has one outcome within a call.
\<close>

record world =
  SPOTIFY_CLIENT_ID :: "string option"
  SPOTIFY_CLIENT_SECRET :: "string option"
  clientCredentialsGrant :: "string \<times> string \<Rightarrow> thrown + string"
  searchTracks :: "string \<Rightarrow> string \<Rightarrow> thrown + SearchResponse"
  axios_get :: "string \<Rightarrow> thrown + string"
  cheerio_load :: "string \<Rightarrow> thrown + element list"
  settle_order :: "nat list"

section \<open>The module\<close>

text \<open>
  \<open>createSpotifyApi\<close> throws when \<open>!clientId || !clientSecret\<close>, that is when a variable
  is unset or empty; the client is represented by its credentials.
\<close>

definition createSpotifyApi :: "world \<Rightarrow> thrown + string \<times> string" where
  "createSpotifyApi w =
     (case (SPOTIFY_CLIENT_ID w, SPOTIFY_CLIENT_SECRET w) of
        (Some clientId, Some clientSecret) \<Rightarrow>
          if clientId = [] \<or> clientSecret = []
          then Inl (JsError ''SPOTIFY_CLIENT_ID and SPOTIFY_CLIENT_SECRET environment variables are required'')
          else Inr (clientId, clientSecret)
      | _ \<Rightarrow> Inl (JsError ''SPOTIFY_CLIENT_ID and SPOTIFY_CLIENT_SECRET environment variables are required''))"

subsection \<open>\<open>getSpotifyLinks\<close>\<close>

text \<open>
  \<open>scdnLinks.add(value)\<close>: a JavaScript \<open>Set\<close> keeps its members in insertion order and
  ignores a value it already has; \<open>Array.from\<close> lists them in that order.
\<close>

definition Set_add :: "string list \<Rightarrow> string \<Rightarrow> string list" where
  "Set_add scdnLinks v = (if v \<in> set scdnLinks then scdnLinks else scdnLinks @ [v])"

text \<open>
  The inner \<open>forEach\<close> over \<open>Object.values(attrs)\<close>, with the test
  \<open>value && typeof value === 'string' && value.includes('p.scdn.co')\<close>.
\<close>

definition scan_values :: "string list \<Rightarrow> string list \<Rightarrow> string list" where
  "scan_values vs scdnLinks =
     fold (\<lambda>v links. if v \<noteq> [] \<and> str_includes v ''p.scdn.co'' then Set_add links v else links)
       vs scdnLinks"

text \<open>The outer \<open>$('*').each\<close> over the elements in document order.\<close>

definition scan_elements :: "element list \<Rightarrow> string list \<Rightarrow> string list" where
  "scan_elements els scdnLinks =
     fold (\<lambda>el links. case attribs el of
                         None \<Rightarrow> links
                       | Some attrs \<Rightarrow> scan_values (Object_values attrs) links)
       els scdnLinks"

text \<open>
  The \<open>try\<close> block of \<open>getSpotifyLinks\<close>: the request or the parser may throw; the
  \<open>catch\<close> clause rethrows an \<open>Error\<close> with the prefixed message.
\<close>

definition getSpotifyLinks_try :: "world \<Rightarrow> string \<Rightarrow> thrown + string list" where
  "getSpotifyLinks_try w url =
     (case axios_get w url of
        Inl e \<Rightarrow> Inl e
      | Inr html \<Rightarrow>
          (case cheerio_load w html of
             Inl e \<Rightarrow> Inl e
           | Inr els \<Rightarrow> Inr (scan_elements els [])))"

definition getSpotifyLinks :: "world \<Rightarrow> string \<Rightarrow> thrown + string list" where
  "getSpotifyLinks w url =
     (case getSpotifyLinks_try w url of
        Inr links \<Rightarrow> Inr links
      | Inl e \<Rightarrow> Inl (JsError (''Failed to fetch preview URLs: '' @ errorMessage e)))"

subsection \<open>\<open>searchAndGetLinks\<close>\<close>

text \<open>The second argument, of type \<open>string | number | undefined\<close>.\<close>

datatype artistOrLimit = ArgString string | ArgNumber number | ArgUndefined

text \<open>The third parameter \<open>limit: number = 5\<close>; \<open>None\<close> is an argument not supplied.\<close>

definition default_limit :: "number option \<Rightarrow> number" where
  "default_limit limitArg = (case limitArg of None \<Rightarrow> Num 5 | Some l \<Rightarrow> l)"

text \<open>
  Parameter parsing by \<open>typeof artistOrLimit\<close>: the pair \<open>(artist, actualLimit)\<close>, where
  \<open>None\<close> is the initial \<open>artist = null\<close>.
\<close>

definition parse_parameters :: "artistOrLimit \<Rightarrow> number option \<Rightarrow> string option \<times> number" where
  "parse_parameters a limitArg =
     (case a of
        ArgString s \<Rightarrow> (Some s, default_limit limitArg)
      | ArgNumber n \<Rightarrow> (None, n)
      | ArgUndefined \<Rightarrow> (None, Num 5))"

text \<open>\<open>let searchQuery = songName; if (artist) { searchQuery = `track:"..." artist:"..."` }\<close>\<close>

definition build_searchQuery :: "string \<Rightarrow> string option \<Rightarrow> string" where
  "build_searchQuery songName artist =
     (case artist of
        None \<Rightarrow> songName
      | Some a \<Rightarrow>
          if a \<noteq> []
          then ''track:'' @ [dquote] @ songName @ [dquote] @ '' artist:'' @ [dquote] @ a @ [dquote]
          else songName)"

text \<open>The callback mapped over the retained tracks.\<close>

definition track_info :: "world \<Rightarrow> TrackObjectFull \<Rightarrow> thrown + TrackInfo" where
  "track_info w track =
     (let url = external_urls_spotify track in
      case getSpotifyLinks w url of
        Inl e \<Rightarrow> Inl e
      | Inr links \<Rightarrow>
          Inr \<lparr> name = track_name track @ '' - '' @ join '', '' (map artist_name (artists track)),
                spotifyUrl = url,
                previewUrls = links,
                trackId = track_id track,
                albumName = album_name (album track),
                releaseDate = release_date (album track),
                popularity = track_popularity track,
                durationMs = duration_ms track \<rparr>)"

text \<open>Client construction, credential grant and search, for a song name that passed validation.\<close>

definition catalog_search :: "world \<Rightarrow> string \<Rightarrow> thrown + SearchResponse" where
  "catalog_search w q =
     (case createSpotifyApi w of
        Inl e \<Rightarrow> Inl e
      | Inr spotifyApi \<Rightarrow>
          (case clientCredentialsGrant w spotifyApi of
             Inl e \<Rightarrow> Inl e
           | Inr access_token \<Rightarrow> searchTracks w access_token q))"

text \<open>
  The \<open>try\<close> block of \<open>searchAndGetLinks\<close>: \<open>Inl\<close> is a throw, \<open>Inr\<close> a \<open>return\<close>.
  The first argument is \<open>None\<close> when the song name is not supplied; \<open>!songName\<close> holds
  for it and for the empty string.
\<close>

definition searchAndGetLinks_try ::
  "world \<Rightarrow> string option \<Rightarrow> artistOrLimit \<Rightarrow> number option \<Rightarrow> thrown + SearchResult" where
  "searchAndGetLinks_try w songNameArg a limitArg =
     (case songNameArg of
        None \<Rightarrow> Inl (JsError ''Song name is required'')
      | Some songName \<Rightarrow>
          if songName = [] then Inl (JsError ''Song name is required'')
          else
            (case parse_parameters a limitArg of (artist, actualLimit) \<Rightarrow>
               let query = build_searchQuery songName artist in
               (case catalog_search w query of
                  Inl e \<Rightarrow> Inl e
                | Inr body \<Rightarrow>
                    (case tracks body of
                       None \<Rightarrow>
                         Inr \<lparr> success = False, searchQuery = None, results = [],
                               error = Some ''No songs found'' \<rparr>
                     | Some page \<Rightarrow>
                         if length (items page) = 0
                         then Inr \<lparr> success = False, searchQuery = None, results = [],
                                    error = Some ''No songs found'' \<rparr>
                         else
                           (case Promise_all (settle_order w)
                                   (map (track_info w) (slice0 (items page) actualLimit)) of
                              Inl e \<Rightarrow> Inl e
                            | Inr rs \<Rightarrow>
                                Inr \<lparr> success = True, searchQuery = Some query, results = rs,
                                      error = None \<rparr>)))))"

text \<open>The whole function: the \<open>catch\<close> clause turns every throw into a result.\<close>

definition searchAndGetLinks ::
  "world \<Rightarrow> string option \<Rightarrow> artistOrLimit \<Rightarrow> number option \<Rightarrow> SearchResult" where
  "searchAndGetLinks w songNameArg a limitArg =
     (case searchAndGetLinks_try w songNameArg a limitArg of
        Inr r \<Rightarrow> r
      | Inl e \<Rightarrow>
          \<lparr> success = False, searchQuery = None, results = [], error = Some (errorMessage e) \<rparr>)"

section \<open>Notions used to state the properties\<close>

text \<open>All attribute values of a document, in the order in which the scan visits them.\<close>

definition attribute_values :: "element list \<Rightarrow> string list" where
  "attribute_values els =
     concat (map (\<lambda>el. case attribs el of None \<Rightarrow> [] | Some attrs \<Rightarrow> Object_values attrs) els)"

text \<open>The test applied to each attribute value.\<close>

definition is_preview :: "string \<Rightarrow> bool" where
  "is_preview v = (v \<noteq> [] \<and> str_includes v ''p.scdn.co'')"

text \<open>The object returned by the \<open>catch\<close> clause, and by the no-match branch, for a message.\<close>

definition failure_result :: "string \<Rightarrow> SearchResult" where
  "failure_result m = \<lparr> success = False, searchQuery = None, results = [], error = Some m \<rparr>"

text \<open>The query string and the limit that a call with a valid song name works with.\<close>

definition resolved_query :: "string \<Rightarrow> artistOrLimit \<Rightarrow> number option \<Rightarrow> string" where
  "resolved_query songName a limitArg = build_searchQuery songName (fst (parse_parameters a limitArg))"

definition effective_limit :: "artistOrLimit \<Rightarrow> number option \<Rightarrow> number" where
  "effective_limit a limitArg = snd (parse_parameters a limitArg)"

text \<open>
  A concrete setting for the examples: credentials are set, the grant and the search succeed,
  the catalog answers every query with three tracks, every page is fetched and carries two
  distinct preview links (one of them twice), and the extractions settle last to first.
\<close>

definition demo_tracks :: "TrackObjectFull list" where
  "demo_tracks =
     [\<lparr> track_name = ''Shape of You'', artists = [\<lparr> artist_name = ''Ed Sheeran'' \<rparr>],
         external_urls_spotify = ''u1'', track_id = ''t1'',
         album = \<lparr> album_name = ''Divide'', release_date = ''2017-03-03'' \<rparr>,
         track_popularity = Num 85, duration_ms = Num 233712 \<rparr>,
      \<lparr> track_name = ''Under Pressure'',
         artists = [\<lparr> artist_name = ''Queen'' \<rparr>, \<lparr> artist_name = ''David Bowie'' \<rparr>],
         external_urls_spotify = ''u2'', track_id = ''t2'',
         album = \<lparr> album_name = ''Hot Space'', release_date = ''1982-05-21'' \<rparr>,
         track_popularity = Num 80, duration_ms = Num 248000 \<rparr>,
      \<lparr> track_name = ''Hello'', artists = [\<lparr> artist_name = ''Adele'' \<rparr>],
         external_urls_spotify = ''u3'', track_id = ''t3'',
         album = \<lparr> album_name = ''25'', release_date = ''2015-11-20'' \<rparr>,
         track_popularity = Num 78, duration_ms = Num 295000 \<rparr>]"

definition demo_page :: "string \<Rightarrow> element list" where
  "demo_page html =
     [\<lparr> attribs = Some [(''class'', ''player''), (''src'', ''//p.scdn.co/'' @ html)] \<rparr>,
      \<lparr> attribs = None \<rparr>,
      \<lparr> attribs = Some [(''href'', ''//p.scdn.co/alt''), (''data-src'', ''//p.scdn.co/'' @ html)] \<rparr>]"

definition demo_world :: world where
  "demo_world =
     \<lparr> SPOTIFY_CLIENT_ID = Some ''id'', SPOTIFY_CLIENT_SECRET = Some ''secret'',
       clientCredentialsGrant = (\<lambda>cred. Inr ''token''),
       searchTracks = (\<lambda>token q. Inr \<lparr> tracks = Some \<lparr> items = demo_tracks \<rparr> \<rparr>),
       axios_get = (\<lambda>url. Inr url),
       cheerio_load = (\<lambda>html. Inr (demo_page html)),
       settle_order = [2, 1, 0] \<rparr>"

section \<open>Auxiliary lemmas\<close>

lemma str_includes_iff: "str_includes s t \<longleftrightarrow> (\<exists>p q. s = p @ t @ q)"
proof (induction s)
  case Nil
  then show ?case by auto
next
  case (Cons c cs)
  show ?case
  proof
    assume "str_includes (c # cs) t"
    then consider "prefix t (c # cs)" | "str_includes cs t" by auto
    then show "\<exists>p q. c # cs = p @ t @ q"
    proof cases
      case 1
      then obtain q where "c # cs = t @ q" by (auto simp: prefix_def)
      then have "c # cs = [] @ t @ q" by simp
      then show ?thesis by blast
    next
      case 2
      then obtain p q where "cs = p @ t @ q" using Cons.IH by blast
      then have "c # cs = (c # p) @ t @ q" by simp
      then show ?thesis by blast
    qed
  next
    assume "\<exists>p q. c # cs = p @ t @ q"
    then obtain p q where pq: "c # cs = p @ t @ q" by blast
    show "str_includes (c # cs) t"
    proof (cases p)
      case Nil
      then have "prefix t (c # cs)" using pq by (simp add: prefix_def)
      then show ?thesis by simp
    next
      case (Cons a p')
      then have "cs = p' @ t @ q" using pq by simp
      then have "str_includes cs t" using Cons.IH by blast
      then show ?thesis by simp
    qed
  qed
qed

lemma first_rejected_mem: "first_rejected order ps = Some e \<Longrightarrow> Inl e \<in> set ps"
  by (induction order) (auto split: if_splits sum.splits simp: in_set_conv_nth)

lemma first_rejected_None: "first_rejected order ps = None \<Longrightarrow> i \<in> set order \<Longrightarrow> i < length ps \<Longrightarrow> \<exists>v. ps ! i = Inr v"
  by (induction order) (auto split: if_splits sum.splits)

lemma fulfilled_values_map_Inr: "fulfilled_values (map Inr vs) = vs"
  by (induction vs) auto

lemma all_Inr_map: "(\<forall>i<length ps. \<exists>v. ps ! i = Inr v) \<Longrightarrow> ps = map Inr (fulfilled_values ps)"
proof (induction ps)
  case Nil then show ?case by simp
next
  case (Cons p ps)
  from Cons.prems have "\<exists>v. (p # ps) ! 0 = Inr v" by blast
  then obtain v where v: "p = Inr v" by auto
  have "\<forall>i<length ps. \<exists>v. ps ! i = Inr v"
  proof (intro allI impI)
    fix i assume "i < length ps"
    then have "\<exists>v. (p # ps) ! Suc i = Inr v" using Cons.prems by (metis Suc_less_eq length_Cons)
    then show "\<exists>v. ps ! i = Inr v" by simp
  qed
  then show ?case using Cons.IH v by simp
qed

lemma first_rejected_all_Inr: "(\<forall>p\<in>set ps. \<exists>v. p = Inr v) \<Longrightarrow> first_rejected order ps = None"
proof (induction order)
  case Nil then show ?case by simp
next
  case (Cons i order)
  have ih: "first_rejected order ps = None" using Cons by blast
  show ?case
  proof (cases "i < length ps")
    case True
    then have "ps ! i \<in> set ps" by simp
    then obtain v where "ps ! i = Inr v" using Cons.prems by blast
    then show ?thesis using True ih by simp
  next
    case False
    then show ?thesis using ih by simp
  qed
qed

lemma Promise_all_Inr_iff: "Promise_all order ps = Inr vs \<longleftrightarrow> ps = map Inr vs"
proof
  assume a: "Promise_all order ps = Inr vs"
  then have n: "first_rejected (order @ [0..<length ps]) ps = None" and vs: "vs = fulfilled_values ps"
    by (auto simp: Promise_all_def split: option.splits)
  have "\<forall>i<length ps. \<exists>v. ps ! i = Inr v"
    using first_rejected_None[OF n] by auto
  then show "ps = map Inr vs" using all_Inr_map vs by blast
next
  assume "ps = map Inr vs"
  then show "Promise_all order ps = Inr vs"
    by (auto simp: Promise_all_def fulfilled_values_map_Inr first_rejected_all_Inr split: option.splits)
qed

lemma Promise_all_Inl_mem: "Promise_all order ps = Inl e \<Longrightarrow> Inl e \<in> set ps"
  by (auto simp: Promise_all_def split: option.splits dest: first_rejected_mem)

lemma Promise_all_rejects: "Inl e \<in> set ps \<Longrightarrow> \<exists>e'. Promise_all order ps = Inl e'"
proof (cases "Promise_all order ps")
  case (Inl a) then show ?thesis by blast
next
  case (Inr vs)
  assume "Inl e \<in> set ps"
  moreover from Inr have "ps = map Inr vs" by (simp add: Promise_all_Inr_iff)
  ultimately show ?thesis by auto
qed

lemma remdups_drop_later:
  "v \<in> set bs \<Longrightarrow> remdups (as @ v # bs) = remdups (as @ bs)"
  by (induction as) auto

lemma keep_first_repeat:
  assumes "v \<in> set xs"
  shows "rev (remdups (rev (xs @ v # ys))) = rev (remdups (rev (xs @ ys)))"
proof -
  have "remdups (rev ys @ v # rev xs) = remdups (rev ys @ rev xs)"
    using assms by (intro remdups_drop_later) simp
  then show ?thesis by simp
qed

lemma scan_values_Nil: "scan_values [] acc = acc"
  by (simp add: scan_values_def)

lemma scan_values_Cons:
  "scan_values (v # vs) acc = scan_values vs (if is_preview v then Set_add acc v else acc)"
  by (simp add: scan_values_def is_preview_def)

lemma scan_values_append: "scan_values (xs @ ys) acc = scan_values ys (scan_values xs acc)"
  by (simp add: scan_values_def)

lemma scan_values_keep_first:
  "distinct acc \<Longrightarrow>
   scan_values vs acc = rev (remdups (rev (acc @ filter is_preview vs)))"
proof (induction vs arbitrary: acc)
  case Nil
  then show ?case by (simp add: scan_values_Nil distinct_remdups_id)
next
  case (Cons v vs)
  show ?case
  proof (cases "is_preview v")
    case False
    then show ?thesis using Cons by (simp add: scan_values_Cons)
  next
    case True
    show ?thesis
    proof (cases "v \<in> set acc")
      case True
      have "scan_values (v # vs) acc = scan_values vs acc"
        using \<open>is_preview v\<close> True by (simp add: scan_values_Cons Set_add_def)
      also have "\<dots> = rev (remdups (rev (acc @ filter is_preview vs)))"
        using Cons by blast
      also have "\<dots> = rev (remdups (rev (acc @ v # filter is_preview vs)))"
        using keep_first_repeat[OF True] by simp
      finally show ?thesis using \<open>is_preview v\<close> by simp
    next
      case False
      have d: "distinct (acc @ [v])" using False Cons.prems by simp
      have "scan_values (v # vs) acc = scan_values vs (acc @ [v])"
        using \<open>is_preview v\<close> False by (simp add: scan_values_Cons Set_add_def)
      also have "\<dots> = rev (remdups (rev ((acc @ [v]) @ filter is_preview vs)))"
        using Cons.IH[OF d] .
      finally show ?thesis using \<open>is_preview v\<close> by simp
    qed
  qed
qed

lemma scan_elements_values:
  "scan_elements els acc = scan_values (attribute_values els) acc"
proof (induction els arbitrary: acc)
  case Nil
  then show ?case by (simp add: scan_elements_def attribute_values_def scan_values_Nil)
next
  case (Cons el els)
  have step: "scan_elements (el # els) acc =
      scan_elements els (case attribs el of None \<Rightarrow> acc
                         | Some attrs \<Rightarrow> scan_values (Object_values attrs) acc)"
    by (simp add: scan_elements_def)
  have av: "attribute_values (el # els) =
      (case attribs el of None \<Rightarrow> [] | Some attrs \<Rightarrow> Object_values attrs) @ attribute_values els"
    by (simp add: attribute_values_def)
  show ?case
    by (cases "attribs el") (simp_all add: step av Cons.IH scan_values_append scan_values_Nil)
qed

lemma scan_elements_keep_first:
  "scan_elements els [] = rev (remdups (rev (filter is_preview (attribute_values els))))"
  by (simp add: scan_elements_values scan_values_keep_first)

lemma slice0_length_le: "length (slice0 xs L) \<le> length xs"
  by (simp add: slice0_def Let_def)

lemma slice0_zero_trunc: "- 1 < q \<Longrightarrow> q < 1 \<Longrightarrow> slice0 xs (Num q) = []"
proof -
  assume a: "- 1 < q" "q < 1"
  have "q < 0 \<Longrightarrow> \<lceil>q\<rceil> = 0" using a by (simp add: ceiling_eq_iff)
  moreover have "\<not> q < 0 \<Longrightarrow> \<lfloor>q\<rfloor> = 0" using a by (simp add: floor_eq_iff)
  ultimately show ?thesis by (simp add: slice0_def Let_def)
qed

lemma slice0_all: "of_nat (length xs) \<le> q \<Longrightarrow> slice0 xs (Num q) = xs"
proof -
  assume a: "of_nat (length xs) \<le> q"
  then have "int (length xs) \<le> \<lfloor>q\<rfloor>" by (simp add: le_floor_iff)
  moreover have "\<not> q < 0" using a by (metis of_nat_0_le_iff order_trans not_less)
  ultimately show ?thesis by (simp add: slice0_def Let_def)
qed

lemma slice0_length_le_limit: "0 \<le> q \<Longrightarrow> of_nat (length (slice0 xs (Num q))) \<le> q"
proof -
  assume a: "0 \<le> q"
  then have f: "0 \<le> \<lfloor>q\<rfloor>" by simp
  have "length (slice0 xs (Num q)) = min (nat (min \<lfloor>q\<rfloor> (int (length xs)))) (length xs)"
    using a by (simp add: slice0_def Let_def)
  then have "int (length (slice0 xs (Num q))) \<le> \<lfloor>q\<rfloor>" using f by linarith
  then have "of_int (int (length (slice0 xs (Num q)))) \<le> (of_int \<lfloor>q\<rfloor> :: rat)" by simp
  also have "\<dots> \<le> q" by simp
  finally show ?thesis by simp
qed

lemma slice0_special:
  "slice0 xs NaN = []" "slice0 xs NegInfinity = []" "slice0 xs PosInfinity = xs"
  by (simp_all add: slice0_def)

lemma is_preview_iff: "is_preview v \<longleftrightarrow> str_includes v ''p.scdn.co''"
  by (cases v) (auto simp: is_preview_def)

lemma try_no_name:
  "s = None \<or> s = Some [] \<Longrightarrow> searchAndGetLinks_try w s a l = Inl (JsError ''Song name is required'')"
  by (auto simp: searchAndGetLinks_try_def)

lemma try_valid:
  assumes "songName \<noteq> []"
  shows "searchAndGetLinks_try w (Some songName) a l =
     (case catalog_search w (resolved_query songName a l) of
        Inl e \<Rightarrow> Inl e
      | Inr body \<Rightarrow>
          (case tracks body of
             None \<Rightarrow> Inr (failure_result ''No songs found'')
           | Some page \<Rightarrow>
               if items page = [] then Inr (failure_result ''No songs found'')
               else
                 (case Promise_all (settle_order w)
                         (map (track_info w) (slice0 (items page) (effective_limit a l))) of
                    Inl e \<Rightarrow> Inl e
                  | Inr rs \<Rightarrow>
                      Inr \<lparr> success = True, searchQuery = Some (resolved_query songName a l),
                            results = rs, error = None \<rparr>)))"
proof (cases "parse_parameters a l")
  case (Pair artist actualLimit)
  then show ?thesis
    using assms
    by (simp add: searchAndGetLinks_try_def resolved_query_def effective_limit_def
        failure_result_def Let_def split: sum.splits option.splits)
qed

lemma catch_Inl:
  "searchAndGetLinks_try w s a l = Inl e \<Longrightarrow>
   searchAndGetLinks w s a l = failure_result (errorMessage e)"
  by (simp add: searchAndGetLinks_def failure_result_def)

lemma catch_Inr:
  "searchAndGetLinks_try w s a l = Inr r \<Longrightarrow> searchAndGetLinks w s a l = r"
  by (simp add: searchAndGetLinks_def)

lemma try_Inr_cases:
  assumes "searchAndGetLinks_try w s a l = Inr r"
  shows "r = failure_result ''No songs found'' \<or>
         (\<exists>songName body page rs. s = Some songName \<and> songName \<noteq> []
            \<and> catalog_search w (resolved_query songName a l) = Inr body
            \<and> tracks body = Some page \<and> items page \<noteq> []
            \<and> map (track_info w) (slice0 (items page) (effective_limit a l)) = map Inr rs
            \<and> r = \<lparr> success = True, searchQuery = Some (resolved_query songName a l),
                      results = rs, error = None \<rparr>)"
proof (cases "s = None \<or> s = Some []")
  case True
  then show ?thesis using assms try_no_name by fastforce
next
  case False
  then obtain songName where s: "s = Some songName" "songName \<noteq> []" by auto
  show ?thesis
    using assms unfolding s try_valid[OF s(2)]
    by (auto split: sum.splits option.splits if_splits simp: Promise_all_Inr_iff s)
qed

lemma result_shape:
  "(success (searchAndGetLinks w s a l) \<and> error (searchAndGetLinks w s a l) = None
      \<and> (\<exists>q. searchQuery (searchAndGetLinks w s a l) = Some q))
   \<or> (\<exists>m. searchAndGetLinks w s a l = failure_result m)"
proof (cases "searchAndGetLinks_try w s a l")
  case (Inl e)
  then show ?thesis using catch_Inl by blast
next
  case (Inr r)
  then have "searchAndGetLinks w s a l = r" by (rule catch_Inr)
  then show ?thesis using try_Inr_cases[OF Inr] by (auto simp: failure_result_def)
qed

lemma success_cases:
  assumes "success (searchAndGetLinks w s a l)"
  shows "\<exists>songName body page rs. s = Some songName \<and> songName \<noteq> []
            \<and> catalog_search w (resolved_query songName a l) = Inr body
            \<and> tracks body = Some page \<and> items page \<noteq> []
            \<and> map (track_info w) (slice0 (items page) (effective_limit a l)) = map Inr rs
            \<and> searchAndGetLinks w s a l =
                \<lparr> success = True, searchQuery = Some (resolved_query songName a l),
                  results = rs, error = None \<rparr>"
proof (cases "searchAndGetLinks_try w s a l")
  case (Inl e)
  then show ?thesis using catch_Inl[OF Inl] assms by (simp add: failure_result_def)
next
  case (Inr r)
  then have eq: "searchAndGetLinks w s a l = r" by (rule catch_Inr)
  from try_Inr_cases[OF Inr] assms eq show ?thesis by (auto simp: failure_result_def)
qed

lemma reached_extraction:
  assumes "songName \<noteq> []"
    and "catalog_search w (resolved_query songName a l) = Inr body"
    and "tracks body = Some page" and "items page \<noteq> []"
  shows "searchAndGetLinks w (Some songName) a l =
     (case Promise_all (settle_order w)
             (map (track_info w) (slice0 (items page) (effective_limit a l))) of
        Inl e \<Rightarrow> failure_result (errorMessage e)
      | Inr rs \<Rightarrow> \<lparr> success = True, searchQuery = Some (resolved_query songName a l),
                      results = rs, error = None \<rparr>)"
  using assms
  by (simp add: searchAndGetLinks_def try_valid failure_result_def split: sum.splits)

lemma results_length_le:
  assumes "songName \<noteq> []"
    and "catalog_search w (resolved_query songName a l) = Inr body"
    and "tracks body = Some page"
  shows "length (results (searchAndGetLinks w (Some songName) a l))
           \<le> length (slice0 (items page) (effective_limit a l))"
proof (cases "items page = []")
  case True
  then show ?thesis using assms
    by (simp add: searchAndGetLinks_def try_valid failure_result_def)
next
  case False
  show ?thesis
  proof (cases "Promise_all (settle_order w)
             (map (track_info w) (slice0 (items page) (effective_limit a l)))")
    case (Inl e)
    then show ?thesis using reached_extraction[OF assms False] by (simp add: failure_result_def)
  next
    case (Inr rs)
    then have "map (track_info w) (slice0 (items page) (effective_limit a l)) = map Inr rs"
      by (simp add: Promise_all_Inr_iff)
    then have "length (slice0 (items page) (effective_limit a l)) = length rs"
      by (metis length_map)
    then show ?thesis using reached_extraction[OF assms False] Inr by simp
  qed
qed

lemma track_info_Inl_iff:
  "track_info w t = Inl e \<longleftrightarrow>
     (\<exists>u. getSpotifyLinks_try w (external_urls_spotify t) = Inl u
        \<and> e = JsError (''Failed to fetch preview URLs: '' @ errorMessage u))"
  by (auto simp: track_info_def getSpotifyLinks_def Let_def split: sum.splits)

lemma demo_catalog:
  "catalog_search demo_world q = Inr \<lparr> tracks = Some \<lparr> items = demo_tracks \<rparr> \<rparr>"
  by (simp add: catalog_search_def createSpotifyApi_def demo_world_def)

lemma demo_slice5: "slice0 demo_tracks (Num 5) = demo_tracks"
  by (simp add: slice0_def demo_tracks_def)

lemma Promise_all_all_Inr:
  "(\<forall>p\<in>set ps. \<exists>v. p = Inr v) \<Longrightarrow> Promise_all order ps = Inr (fulfilled_values ps)"
  by (simp add: Promise_all_def first_rejected_all_Inr)

lemma length_fulfilled_values:
  "(\<forall>p\<in>set ps. \<exists>v. p = Inr v) \<Longrightarrow> length (fulfilled_values ps) = length ps"
  by (induction ps) auto

lemma demo_track_info: "\<exists>v. track_info demo_world t = Inr v"
  by (simp add: track_info_def getSpotifyLinks_def getSpotifyLinks_try_def demo_world_def Let_def)

lemma demo_run:
  assumes "s \<noteq> []"
  shows "searchAndGetLinks demo_world (Some s) a l =
     \<lparr> success = True, searchQuery = Some (resolved_query s a l),
       results = fulfilled_values
                   (map (track_info demo_world) (slice0 demo_tracks (effective_limit a l))),
       error = None \<rparr>"
proof -
  have "\<forall>p\<in>set (map (track_info demo_world) (slice0 demo_tracks (effective_limit a l))).
          \<exists>v. p = Inr v"
    using demo_track_info by auto
  then have "Promise_all (settle_order demo_world)
               (map (track_info demo_world) (slice0 demo_tracks (effective_limit a l)))
             = Inr (fulfilled_values
                   (map (track_info demo_world) (slice0 demo_tracks (effective_limit a l))))"
    by (rule Promise_all_all_Inr)
  moreover have "demo_tracks \<noteq> []" by (simp add: demo_tracks_def)
  ultimately show ?thesis
    using reached_extraction [OF assms demo_catalog, of "\<lparr> items = demo_tracks \<rparr>" a l]
    by simp
qed

lemma demo_results_length:
  assumes "s \<noteq> []"
  shows "length (results (searchAndGetLinks demo_world (Some s) a l)) =
           length (slice0 demo_tracks (effective_limit a l))"
proof -
  have "\<forall>p\<in>set (map (track_info demo_world) (slice0 demo_tracks (effective_limit a l))).
          \<exists>v. p = Inr v"
    using demo_track_info by auto
  then have "length (fulfilled_values
                 (map (track_info demo_world) (slice0 demo_tracks (effective_limit a l))))
             = length (map (track_info demo_world) (slice0 demo_tracks (effective_limit a l)))"
    by (rule length_fulfilled_values)
  then show ?thesis
    by (simp add: demo_run [OF assms])
qed

lemma demo_effective_limit:
  "effective_limit (ArgNumber n) l = n" "effective_limit ArgUndefined l = Num 5"
  "effective_limit (ArgString x) l = default_limit l"
  by (simp_all add: effective_limit_def parse_parameters_def)

lemma demo_slices:
  "slice0 demo_tracks (Num 0) = []"
  "slice0 demo_tracks (Num (- 1)) = take 2 demo_tracks"
  "length (slice0 demo_tracks (Num (- 1))) = 2"
  "length (slice0 demo_tracks (Num 2)) = 2"
  "length (slice0 demo_tracks (Num 5)) = 3"
  by (simp_all add: slice0_def demo_tracks_def ceiling_minus)

lemma extraction_failure:
  assumes "songName \<noteq> []"
    and "catalog_search w (resolved_query songName a l) = Inr body"
    and "tracks body = Some page" and "items page \<noteq> []"
    and "t \<in> set (slice0 (items page) (effective_limit a l))"
    and "track_info w t = Inl e"
  shows "\<exists>t' e'. t' \<in> set (slice0 (items page) (effective_limit a l))
           \<and> track_info w t' = Inl e'
           \<and> Promise_all (settle_order w)
                 (map (track_info w) (slice0 (items page) (effective_limit a l))) = Inl e'
           \<and> searchAndGetLinks w (Some songName) a l = failure_result (errorMessage e')"
proof -
  let ?ps = "map (track_info w) (slice0 (items page) (effective_limit a l))"
  have "Inl e \<in> set ?ps" using assms(5,6) by force
  then have "\<exists>e'. Promise_all (settle_order w) ?ps = Inl e'"
    by (rule Promise_all_rejects)
  then obtain e' where e': "Promise_all (settle_order w) ?ps = Inl e'" ..
  then have "Inl e' \<in> set ?ps" by (rule Promise_all_Inl_mem)
  then obtain t' where t': "t' \<in> set (slice0 (items page) (effective_limit a l))"
      "track_info w t' = Inl e'"
    by auto
  have "searchAndGetLinks w (Some songName) a l = failure_result (errorMessage e')"
    using reached_extraction [OF assms(1-4)] e' by simp
  then show ?thesis using t' e' by blast
qed

lemma track_info_Inr_fields:
  assumes "track_info w t = Inr v"
  shows "name v = track_name t @ '' - '' @ join '', '' (map artist_name (artists t))"
    and "spotifyUrl v = external_urls_spotify t"
    and "trackId v = track_id t"
    and "albumName v = album_name (album t)"
    and "releaseDate v = release_date (album t)"
    and "popularity v = track_popularity t"
    and "durationMs v = duration_ms t"
    and "getSpotifyLinks w (external_urls_spotify t) = Inr (previewUrls v)"
  using assms by (auto simp: track_info_def Let_def split: sum.splits)

lemma settle_order_getSpotifyLinks:
  "getSpotifyLinks (w\<lparr>settle_order := order\<rparr>) url = getSpotifyLinks w url"
proof -
  have "getSpotifyLinks_try (w\<lparr>settle_order := order\<rparr>) url = getSpotifyLinks_try w url"
    by (simp add: getSpotifyLinks_try_def split: sum.splits)
  then show ?thesis by (simp add: getSpotifyLinks_def)
qed

lemma settle_order_irrelevant:
  "catalog_search (w\<lparr>settle_order := order\<rparr>) q = catalog_search w q"
  "track_info (w\<lparr>settle_order := order\<rparr>) = track_info w"
proof -
  have "createSpotifyApi (w\<lparr>settle_order := order\<rparr>) = createSpotifyApi w"
    by (simp add: createSpotifyApi_def)
  then show "catalog_search (w\<lparr>settle_order := order\<rparr>) q = catalog_search w q"
    by (simp add: catalog_search_def split: sum.splits)
  show "track_info (w\<lparr>settle_order := order\<rparr>) = track_info w"
    by (rule ext) (simp add: track_info_def settle_order_getSpotifyLinks)
qed

lemma getSpotifyLinks_success:
  assumes "axios_get w url = Inr html" and "cheerio_load w html = Inr els"
  shows "getSpotifyLinks w url =
           Inr (rev (remdups (rev (filter (\<lambda>v. str_includes v ''p.scdn.co'') (attribute_values els)))))"
proof -
  have "is_preview = (\<lambda>v. str_includes v ''p.scdn.co'')"
    by (rule ext) (rule is_preview_iff)
  then show ?thesis
    using assms
    by (simp add: getSpotifyLinks_def getSpotifyLinks_try_def scan_elements_keep_first)
qed

lemma getSpotifyLinks_Inr_fetch:
  assumes "getSpotifyLinks w url = Inr links"
  shows "\<exists>html els. axios_get w url = Inr html \<and> cheerio_load w html = Inr els"
  using assms
  by (auto simp: getSpotifyLinks_def getSpotifyLinks_try_def split: sum.splits)

lemma track_info_Inr_iff:
  "(\<exists>v. track_info w t = Inr v) \<longleftrightarrow>
     (\<exists>links. getSpotifyLinks_try w (external_urls_spotify t) = Inr links)"
  by (auto simp: track_info_def getSpotifyLinks_def Let_def split: sum.splits)

lemma all_extractions_succeed:
  assumes "songName \<noteq> []"
    and "catalog_search w (resolved_query songName a l) = Inr body"
    and "tracks body = Some page" and "items page \<noteq> []"
    and "\<forall>t \<in> set (slice0 (items page) (effective_limit a l)).
           \<exists>links. getSpotifyLinks_try w (external_urls_spotify t) = Inr links"
  shows "searchAndGetLinks w (Some songName) a l =
     \<lparr> success = True, searchQuery = Some (resolved_query songName a l),
       results = fulfilled_values
                   (map (track_info w) (slice0 (items page) (effective_limit a l))),
       error = None \<rparr>"
    and "length (fulfilled_values (map (track_info w) (slice0 (items page) (effective_limit a l))))
           = length (slice0 (items page) (effective_limit a l))"
proof -
  let ?ps = "map (track_info w) (slice0 (items page) (effective_limit a l))"
  have all: "\<forall>p\<in>set ?ps. \<exists>v. p = Inr v"
    using assms(5) track_info_Inr_iff by auto
  then have "Promise_all (settle_order w) ?ps = Inr (fulfilled_values ?ps)"
    by (rule Promise_all_all_Inr)
  then show "searchAndGetLinks w (Some songName) a l =
     \<lparr> success = True, searchQuery = Some (resolved_query songName a l),
       results = fulfilled_values ?ps, error = None \<rparr>"
    using reached_extraction [OF assms(1-4)] by simp
  have "length (fulfilled_values ?ps) = length ?ps"
    using all by (rule length_fulfilled_values)
  then show "length (fulfilled_values ?ps) = length (slice0 (items page) (effective_limit a l))"
    by simp
qed

lemma extraction_failure_message:
  assumes "songName \<noteq> []"
    and "catalog_search w (resolved_query songName a l) = Inr body"
    and "tracks body = Some page" and "items page \<noteq> []"
    and "t \<in> set (slice0 (items page) (effective_limit a l))"
    and "getSpotifyLinks_try w (external_urls_spotify t) = Inl u"
  shows "\<exists>t' u'. t' \<in> set (slice0 (items page) (effective_limit a l))
            \<and> getSpotifyLinks_try w (external_urls_spotify t') = Inl u'
            \<and> searchAndGetLinks w (Some songName) a l =
                 failure_result (''Failed to fetch preview URLs: '' @ errorMessage u')"
proof -
  have ti: "track_info w t = Inl (JsError (''Failed to fetch preview URLs: '' @ errorMessage u))"
    using assms(6) by (simp add: track_info_Inl_iff)
  from extraction_failure [OF assms(1-5) ti] obtain t' e' where
    t': "t' \<in> set (slice0 (items page) (effective_limit a l))" "track_info w t' = Inl e'"
        "searchAndGetLinks w (Some songName) a l = failure_result (errorMessage e')"
    by blast
  from t'(2) obtain u' where
    u': "getSpotifyLinks_try w (external_urls_spotify t') = Inl u'"
        "e' = JsError (''Failed to fetch preview URLs: '' @ errorMessage u')"
    by (auto simp: track_info_Inl_iff)
  have "searchAndGetLinks w (Some songName) a l =
          failure_result (''Failed to fetch preview URLs: '' @ errorMessage u')"
    using t'(3) u'(2) by (simp add: errorMessage_def)
  then show ?thesis using t'(1) u'(1) by blast
qed

lemma no_songs_found:
  assumes "songName \<noteq> []"
    and "catalog_search w (resolved_query songName a l) = Inr body"
    and "tracks body = None \<or> (\<exists>page. tracks body = Some page \<and> items page = [])"
  shows "searchAndGetLinks_try w (Some songName) a l = Inr (failure_result ''No songs found'')"
    and "searchAndGetLinks w (Some songName) a l = failure_result ''No songs found''"
proof -
  show t: "searchAndGetLinks_try w (Some songName) a l = Inr (failure_result ''No songs found'')"
    using assms by (auto simp: try_valid)
  show "searchAndGetLinks w (Some songName) a l = failure_result ''No songs found''"
    using t by (rule catch_Inr)
qed

section \<open>Properties of the specification\<close>

text \<open>
  C1. \<open>searchAndGetLinks\<close> always returns a \<open>SearchResult\<close>: whatever the \<open>try\<close> block throws
  is caught and becomes \<open>{success: false, results: [], error: <message>}\<close>, where the message
  is the \<open>message\<close> of a caught \<open>Error\<close> and \<open>"Unknown error"\<close> for any other caught value.
  Every failure path ends so: the validation failure, missing credentials, a failing
  credential grant, a failing search, a catalog answer without matches, and a failing
  extraction of a retained candidate (whose message is prefixed). The call succeeds exactly
  when the song name is valid, the catalog answers with matches and every retained
  candidate's extraction succeeds.
\<close>

theorem searchAndGetLinks_never_throws:
  "(\<forall>e. searchAndGetLinks_try w s a l = Inl e \<longrightarrow>
        searchAndGetLinks w s a l = failure_result (errorMessage e))
   \<and> (\<forall>r. searchAndGetLinks_try w s a l = Inr r \<longrightarrow>
        searchAndGetLinks w s a l = r \<and> (success r \<or> r = failure_result ''No songs found''))
   \<and> (success (searchAndGetLinks w s a l) \<or> (\<exists>m. searchAndGetLinks w s a l = failure_result m))
   \<and> (s = None \<or> s = Some [] \<longrightarrow>
        searchAndGetLinks w s a l = failure_result ''Song name is required'')
   \<and> (\<forall>songName e. s = Some songName \<and> songName \<noteq> [] \<and> createSpotifyApi w = Inl e \<longrightarrow>
        searchAndGetLinks w s a l = failure_result (errorMessage e))
   \<and> (\<forall>songName api e. s = Some songName \<and> songName \<noteq> [] \<and> createSpotifyApi w = Inr api
          \<and> clientCredentialsGrant w api = Inl e \<longrightarrow>
        searchAndGetLinks w s a l = failure_result (errorMessage e))
   \<and> (\<forall>songName api token e. s = Some songName \<and> songName \<noteq> [] \<and> createSpotifyApi w = Inr api
          \<and> clientCredentialsGrant w api = Inr token
          \<and> searchTracks w token (resolved_query songName a l) = Inl e \<longrightarrow>
        searchAndGetLinks w s a l = failure_result (errorMessage e))
   \<and> (\<forall>songName body. s = Some songName \<and> songName \<noteq> []
          \<and> catalog_search w (resolved_query songName a l) = Inr body
          \<and> (tracks body = None \<or> (\<exists>page. tracks body = Some page \<and> items page = [])) \<longrightarrow>
        searchAndGetLinks w s a l = failure_result ''No songs found'')
   \<and> (\<forall>songName body page t u. s = Some songName \<and> songName \<noteq> []
          \<and> catalog_search w (resolved_query songName a l) = Inr body
          \<and> tracks body = Some page \<and> items page \<noteq> []
          \<and> t \<in> set (slice0 (items page) (effective_limit a l))
          \<and> getSpotifyLinks_try w (external_urls_spotify t) = Inl u \<longrightarrow>
        (\<exists>t' u'. t' \<in> set (slice0 (items page) (effective_limit a l))
            \<and> getSpotifyLinks_try w (external_urls_spotify t') = Inl u'
            \<and> searchAndGetLinks w s a l =
                 failure_result (''Failed to fetch preview URLs: '' @ errorMessage u')))
   \<and> (success (searchAndGetLinks w s a l) \<longleftrightarrow>
        (\<exists>songName body page. s = Some songName \<and> songName \<noteq> []
           \<and> catalog_search w (resolved_query songName a l) = Inr body
           \<and> tracks body = Some page \<and> items page \<noteq> []
           \<and> (\<forall>t \<in> set (slice0 (items page) (effective_limit a l)).
                 \<exists>links. getSpotifyLinks_try w (external_urls_spotify t) = Inr links)))
   \<and> failure_result m = \<lparr> success = False, searchQuery = None, results = [], error = Some m \<rparr>
   \<and> errorMessage (JsError m) = m
   \<and> errorMessage NonError = ''Unknown error''"
proof -
  have c1: "searchAndGetLinks w s a l = failure_result (errorMessage e)"
    if "searchAndGetLinks_try w s a l = Inl e" for e
    using that by (rule catch_Inl)
  have c2: "searchAndGetLinks w s a l = r \<and> (success r \<or> r = failure_result ''No songs found'')"
    if "searchAndGetLinks_try w s a l = Inr r" for r
    using catch_Inr [OF that] try_Inr_cases [OF that] by auto
  have c3: "success (searchAndGetLinks w s a l) \<or> (\<exists>m. searchAndGetLinks w s a l = failure_result m)"
    using result_shape [of w s a l] by blast
  have c4: "searchAndGetLinks w s a l = failure_result ''Song name is required''"
    if "s = None \<or> s = Some []"
    using catch_Inl [OF try_no_name [OF that]] by (simp add: errorMessage_def)
  have up: "searchAndGetLinks w s a l = failure_result (errorMessage e)"
    if "s = Some songName" "songName \<noteq> []"
      "catalog_search w (resolved_query songName a l) = Inl e" for songName e
  proof -
    have "searchAndGetLinks_try w s a l = Inl e"
      using that by (simp add: try_valid)
    then show ?thesis by (rule catch_Inl)
  qed
  have c5: "searchAndGetLinks w s a l = failure_result (errorMessage e)"
    if "s = Some songName \<and> songName \<noteq> [] \<and> createSpotifyApi w = Inl e" for songName e
    using that up [of songName e] by (simp add: catalog_search_def)
  have c6: "searchAndGetLinks w s a l = failure_result (errorMessage e)"
    if "s = Some songName \<and> songName \<noteq> [] \<and> createSpotifyApi w = Inr api
          \<and> clientCredentialsGrant w api = Inl e" for songName api e
    using that up [of songName e] by (simp add: catalog_search_def)
  have c7: "searchAndGetLinks w s a l = failure_result (errorMessage e)"
    if "s = Some songName \<and> songName \<noteq> [] \<and> createSpotifyApi w = Inr api
          \<and> clientCredentialsGrant w api = Inr token
          \<and> searchTracks w token (resolved_query songName a l) = Inl e" for songName api token e
    using that up [of songName e] by (simp add: catalog_search_def)
  have c8: "failure_result m = \<lparr> success = False, searchQuery = None, results = [], error = Some m \<rparr>"
    by (simp add: failure_result_def)
  have c9: "errorMessage (JsError m) = m" and c10: "errorMessage NonError = ''Unknown error''"
    by (simp_all add: errorMessage_def)
  have c11: "searchAndGetLinks w s a l = failure_result ''No songs found''"
    if "s = Some songName \<and> songName \<noteq> []
          \<and> catalog_search w (resolved_query songName a l) = Inr body
          \<and> (tracks body = None \<or> (\<exists>page. tracks body = Some page \<and> items page = []))"
    for songName body
    using that no_songs_found(2) [of songName w a l body] by blast
  have c12: "\<exists>t' u'. t' \<in> set (slice0 (items page) (effective_limit a l))
            \<and> getSpotifyLinks_try w (external_urls_spotify t') = Inl u'
            \<and> searchAndGetLinks w s a l =
                 failure_result (''Failed to fetch preview URLs: '' @ errorMessage u')"
    if "s = Some songName \<and> songName \<noteq> []
          \<and> catalog_search w (resolved_query songName a l) = Inr body
          \<and> tracks body = Some page \<and> items page \<noteq> []
          \<and> t \<in> set (slice0 (items page) (effective_limit a l))
          \<and> getSpotifyLinks_try w (external_urls_spotify t) = Inl u"
    for songName body page t u
    using that extraction_failure_message [of songName w a l body page t u] by blast
  have c13: "success (searchAndGetLinks w s a l) \<longleftrightarrow>
        (\<exists>songName body page. s = Some songName \<and> songName \<noteq> []
           \<and> catalog_search w (resolved_query songName a l) = Inr body
           \<and> tracks body = Some page \<and> items page \<noteq> []
           \<and> (\<forall>t \<in> set (slice0 (items page) (effective_limit a l)).
                 \<exists>links. getSpotifyLinks_try w (external_urls_spotify t) = Inr links))"
  proof
    assume "success (searchAndGetLinks w s a l)"
    from success_cases [OF this] obtain songName body page rs where
      h: "s = Some songName" "songName \<noteq> []"
         "catalog_search w (resolved_query songName a l) = Inr body"
         "tracks body = Some page" "items page \<noteq> []"
         "map (track_info w) (slice0 (items page) (effective_limit a l)) = map Inr rs"
      by blast
    have "\<exists>links. getSpotifyLinks_try w (external_urls_spotify t) = Inr links"
      if "t \<in> set (slice0 (items page) (effective_limit a l))" for t
    proof -
      have "track_info w t \<in> set (map Inr rs)" using that h(6) by (metis image_eqI set_map)
      then have "\<exists>v. track_info w t = Inr v" by auto
      then show ?thesis by (simp only: track_info_Inr_iff)
    qed
    then show "\<exists>songName body page. s = Some songName \<and> songName \<noteq> []
           \<and> catalog_search w (resolved_query songName a l) = Inr body
           \<and> tracks body = Some page \<and> items page \<noteq> []
           \<and> (\<forall>t \<in> set (slice0 (items page) (effective_limit a l)).
                 \<exists>links. getSpotifyLinks_try w (external_urls_spotify t) = Inr links)"
      using h(1-5) by blast
  next
    assume "\<exists>songName body page. s = Some songName \<and> songName \<noteq> []
           \<and> catalog_search w (resolved_query songName a l) = Inr body
           \<and> tracks body = Some page \<and> items page \<noteq> []
           \<and> (\<forall>t \<in> set (slice0 (items page) (effective_limit a l)).
                 \<exists>links. getSpotifyLinks_try w (external_urls_spotify t) = Inr links)"
    then obtain songName body page where
      h: "s = Some songName" "songName \<noteq> []"
         "catalog_search w (resolved_query songName a l) = Inr body"
         "tracks body = Some page" "items page \<noteq> []"
         "\<forall>t \<in> set (slice0 (items page) (effective_limit a l)).
                 \<exists>links. getSpotifyLinks_try w (external_urls_spotify t) = Inr links"
      by blast
    show "success (searchAndGetLinks w s a l)"
      unfolding h(1) all_extractions_succeed(1) [OF h(2-6)] by simp
  qed
  show ?thesis
    using c1 c2 c3 c4 c5 c6 c7 c8 c9 c10 c11 c12 c13 by blast
qed

theorem searchAndGetLinks_never_throws_witness:
  "searchAndGetLinks (demo_world\<lparr>clientCredentialsGrant := (\<lambda>cred. Inl NonError)\<rparr>)
       (Some ''Hello'') ArgUndefined None =
     \<lparr> success = False, searchQuery = None, results = [], error = Some ''Unknown error'' \<rparr>
   \<and> searchAndGetLinks (demo_world\<lparr>searchTracks := (\<lambda>token q. Inl (JsError ''timeout''))\<rparr>)
       (Some ''Hello'') ArgUndefined None =
     \<lparr> success = False, searchQuery = None, results = [], error = Some ''timeout'' \<rparr>
   \<and> searchAndGetLinks (demo_world\<lparr>SPOTIFY_CLIENT_SECRET := None\<rparr>)
       (Some ''Hello'') ArgUndefined None =
     \<lparr> success = False, searchQuery = None, results = [],
       error = Some ''SPOTIFY_CLIENT_ID and SPOTIFY_CLIENT_SECRET environment variables are required'' \<rparr>
   \<and> searchAndGetLinks (demo_world\<lparr>searchTracks := (\<lambda>token q. Inr \<lparr> tracks = None \<rparr>)\<rparr>)
       (Some ''Hello'') ArgUndefined None =
     \<lparr> success = False, searchQuery = None, results = [], error = Some ''No songs found'' \<rparr>
   \<and> searchAndGetLinks
       (demo_world\<lparr>axios_get := (\<lambda>url. if url = ''u2'' then Inl NonError else Inr url)\<rparr>)
       (Some ''Hello'') ArgUndefined None =
     \<lparr> success = False, searchQuery = None, results = [],
       error = Some ''Failed to fetch preview URLs: Unknown error'' \<rparr>
   \<and> success (searchAndGetLinks demo_world (Some ''Hello'') ArgUndefined None)"
proof -
  let ?w1 = "demo_world\<lparr>clientCredentialsGrant := (\<lambda>cred. Inl NonError)\<rparr>"
  let ?w2 = "demo_world\<lparr>searchTracks := (\<lambda>token q. Inl (JsError ''timeout''))\<rparr>"
  let ?w3 = "demo_world\<lparr>SPOTIFY_CLIENT_SECRET := None\<rparr>"
  let ?w4 = "demo_world\<lparr>searchTracks := (\<lambda>token q. Inr \<lparr> tracks = None \<rparr>)\<rparr>"
  let ?w5 = "demo_world\<lparr>axios_get := (\<lambda>url. if url = ''u2'' then Inl NonError else Inr url)\<rparr>"
  let ?body = "\<lparr> tracks = Some \<lparr> items = demo_tracks \<rparr> \<rparr>"
  let ?page = "\<lparr> items = demo_tracks \<rparr>"
  have a1: "createSpotifyApi ?w1 = Inr (''id'', ''secret'')"
    and g1: "clientCredentialsGrant ?w1 (''id'', ''secret'') = Inl NonError"
    by (simp_all add: createSpotifyApi_def demo_world_def)
  have a2: "createSpotifyApi ?w2 = Inr (''id'', ''secret'')"
    and g2: "clientCredentialsGrant ?w2 (''id'', ''secret'') = Inr ''token''"
    and s2: "searchTracks ?w2 ''token'' (resolved_query ''Hello'' ArgUndefined None)
               = Inl (JsError ''timeout'')"
    by (simp_all add: createSpotifyApi_def demo_world_def)
  have a3: "createSpotifyApi ?w3 = Inl (JsError
      ''SPOTIFY_CLIENT_ID and SPOTIFY_CLIENT_SECRET environment variables are required'')"
    by (simp add: createSpotifyApi_def demo_world_def)
  have a4: "catalog_search ?w4 (resolved_query ''Hello'' ArgUndefined None) = Inr \<lparr> tracks = None \<rparr>"
    by (simp add: catalog_search_def createSpotifyApi_def demo_world_def)
  have a5: "catalog_search ?w5 (resolved_query ''Hello'' ArgUndefined None) = Inr ?body"
    by (simp add: catalog_search_def createSpotifyApi_def demo_world_def)
  have a6: "catalog_search demo_world (resolved_query ''Hello'' ArgUndefined None) = Inr ?body"
    by (rule demo_catalog)
  have sl: "slice0 (items ?page) (effective_limit ArgUndefined None) = demo_tracks"
    by (simp add: demo_effective_limit demo_slice5)
  have ne: "items ?page \<noteq> []" by (simp add: demo_tracks_def)
  have mem: "demo_tracks ! 1 \<in> set (slice0 (items ?page) (effective_limit ArgUndefined None))"
    unfolding sl by (simp add: demo_tracks_def)
  have fail: "getSpotifyLinks_try ?w5 (external_urls_spotify (demo_tracks ! 1)) = Inl NonError"
    by (simp add: getSpotifyLinks_try_def demo_world_def demo_tracks_def)
  have only: "errorMessage u' = ''Unknown error''"
    if "t' \<in> set (slice0 (items ?page) (effective_limit ArgUndefined None))"
       "getSpotifyLinks_try ?w5 (external_urls_spotify t') = Inl u'" for t' u'
    using that unfolding sl
    by (auto simp: demo_tracks_def getSpotifyLinks_try_def demo_world_def errorMessage_def
          split: if_splits)
  have ok: "\<forall>t \<in> set (slice0 (items ?page) (effective_limit ArgUndefined None)).
              \<exists>links. getSpotifyLinks_try demo_world (external_urls_spotify t) = Inr links"
    by (simp add: getSpotifyLinks_try_def demo_world_def)
  note t1 = searchAndGetLinks_never_throws
      [where w = ?w1 and s = "Some ''Hello''" and a = ArgUndefined and l = None and m = "[]"]
  note t2 = searchAndGetLinks_never_throws
      [where w = ?w2 and s = "Some ''Hello''" and a = ArgUndefined and l = None and m = "[]"]
  note t3 = searchAndGetLinks_never_throws
      [where w = ?w3 and s = "Some ''Hello''" and a = ArgUndefined and l = None and m = "[]"]
  note t4 = searchAndGetLinks_never_throws
      [where w = ?w4 and s = "Some ''Hello''" and a = ArgUndefined and l = None and m = "[]"]
  note t5 = searchAndGetLinks_never_throws
      [where w = ?w5 and s = "Some ''Hello''" and a = ArgUndefined and l = None and m = "[]"]
  note t6 = searchAndGetLinks_never_throws
      [where w = demo_world and s = "Some ''Hello''" and a = ArgUndefined and l = None and m = "[]"]
  have r1: "searchAndGetLinks ?w1 (Some ''Hello'') ArgUndefined None
              = failure_result (errorMessage NonError)"
    using t1 a1 g1 by simp
  have r2: "searchAndGetLinks ?w2 (Some ''Hello'') ArgUndefined None
              = failure_result (errorMessage (JsError ''timeout''))"
    using t2 a2 g2 s2 by simp
  have r3: "searchAndGetLinks ?w3 (Some ''Hello'') ArgUndefined None
              = failure_result (errorMessage (JsError
      ''SPOTIFY_CLIENT_ID and SPOTIFY_CLIENT_SECRET environment variables are required''))"
    using t3 a3 by simp
  have c4: "\<forall>songName body. Some ''Hello'' = Some songName \<and> songName \<noteq> []
          \<and> catalog_search ?w4 (resolved_query songName ArgUndefined None) = Inr body
          \<and> (tracks body = None \<or> (\<exists>page. tracks body = Some page \<and> items page = [])) \<longrightarrow>
        searchAndGetLinks ?w4 (Some ''Hello'') ArgUndefined None = failure_result ''No songs found''"
    using t4 by (elim conjE)
  have r4: "searchAndGetLinks ?w4 (Some ''Hello'') ArgUndefined None
              = failure_result ''No songs found''"
    using c4 [rule_format, of "''Hello''" "\<lparr> tracks = None \<rparr>"] a4 by simp
  have c5: "\<forall>songName body page t u. Some ''Hello'' = Some songName \<and> songName \<noteq> []
          \<and> catalog_search ?w5 (resolved_query songName ArgUndefined None) = Inr body
          \<and> tracks body = Some page \<and> items page \<noteq> []
          \<and> t \<in> set (slice0 (items page) (effective_limit ArgUndefined None))
          \<and> getSpotifyLinks_try ?w5 (external_urls_spotify t) = Inl u \<longrightarrow>
        (\<exists>t' u'. t' \<in> set (slice0 (items page) (effective_limit ArgUndefined None))
            \<and> getSpotifyLinks_try ?w5 (external_urls_spotify t') = Inl u'
            \<and> searchAndGetLinks ?w5 (Some ''Hello'') ArgUndefined None =
                 failure_result (''Failed to fetch preview URLs: '' @ errorMessage u'))"
    using t5 by (elim conjE)
  have "\<exists>t' u'. t' \<in> set (slice0 (items ?page) (effective_limit ArgUndefined None))
            \<and> getSpotifyLinks_try ?w5 (external_urls_spotify t') = Inl u'
            \<and> searchAndGetLinks ?w5 (Some ''Hello'') ArgUndefined None =
                 failure_result (''Failed to fetch preview URLs: '' @ errorMessage u')"
    using c5 [rule_format, of "''Hello''" ?body ?page "demo_tracks ! 1" NonError] a5 ne mem fail
    by simp
  then obtain t' u' where
    e5: "t' \<in> set (slice0 (items ?page) (effective_limit ArgUndefined None))"
        "getSpotifyLinks_try ?w5 (external_urls_spotify t') = Inl u'"
        "searchAndGetLinks ?w5 (Some ''Hello'') ArgUndefined None =
                 failure_result (''Failed to fetch preview URLs: '' @ errorMessage u')"
    by blast
  have r5: "searchAndGetLinks ?w5 (Some ''Hello'') ArgUndefined None
              = failure_result ''Failed to fetch preview URLs: Unknown error''"
    using e5(3) only [OF e5(1,2)] by simp
  have c6: "success (searchAndGetLinks demo_world (Some ''Hello'') ArgUndefined None) \<longleftrightarrow>
        (\<exists>songName body page. Some ''Hello'' = Some songName \<and> songName \<noteq> []
           \<and> catalog_search demo_world (resolved_query songName ArgUndefined None) = Inr body
           \<and> tracks body = Some page \<and> items page \<noteq> []
           \<and> (\<forall>t \<in> set (slice0 (items page) (effective_limit ArgUndefined None)).
                 \<exists>links. getSpotifyLinks_try demo_world (external_urls_spotify t) = Inr links))"
    using t6 by (elim conjE)
  have "\<exists>songName body page. Some ''Hello'' = Some songName \<and> songName \<noteq> []
           \<and> catalog_search demo_world (resolved_query songName ArgUndefined None) = Inr body
           \<and> tracks body = Some page \<and> items page \<noteq> []
           \<and> (\<forall>t \<in> set (slice0 (items page) (effective_limit ArgUndefined None)).
                 \<exists>links. getSpotifyLinks_try demo_world (external_urls_spotify t) = Inr links)"
    by (rule exI [of _ "''Hello''"], rule exI [of _ ?body], rule exI [of _ ?page])
       (use a6 ne ok in simp)
  then have r6: "success (searchAndGetLinks demo_world (Some ''Hello'') ArgUndefined None)"
    using c6 by (rule iffD2 [rotated])
  show ?thesis
    unfolding r1 r2 r3 r4 r5 using r6 by (simp add: failure_result_def errorMessage_def)
qed

text \<open>
  C2 (as amended). The retained candidates are \<open>items.slice(0, L)\<close> for the effective
  limit \<open>L\<close>. A limit that truncates to 0 (\<open>-1 < L < 1\<close>, in particular \<open>L = 0\<close>) retains
  nothing, as do \<open>NaN\<close> and \<open>-Infinity\<close>; a limit of at least the number of items retains
  them all. The length of \<open>results\<close> never exceeds the number of retained candidates nor
  the number of catalog matches, and never exceeds \<open>L\<close> when \<open>L \<ge> 0\<close>. Which candidates a
  finite limit \<open>L \<le> -1\<close> retains is not part of the statement.
\<close>

theorem slice_limit_bounds:
  "(- 1 < q \<and> q < 1 \<longrightarrow> slice0 xs (Num q) = [])
   \<and> (of_nat (length xs) \<le> q \<longrightarrow> slice0 xs (Num q) = xs)
   \<and> slice0 xs NaN = [] \<and> slice0 xs NegInfinity = [] \<and> slice0 xs PosInfinity = xs
   \<and> length (slice0 xs L) \<le> length xs
   \<and> (0 \<le> q \<longrightarrow> of_nat (length (slice0 xs (Num q))) \<le> q)
   \<and> (songName \<noteq> [] \<and> catalog_search w (resolved_query songName a l) = Inr body
        \<and> tracks body = Some page \<longrightarrow>
        length (results (searchAndGetLinks w (Some songName) a l))
          \<le> length (slice0 (items page) (effective_limit a l))
        \<and> length (results (searchAndGetLinks w (Some songName) a l)) \<le> length (items page)
        \<and> (\<forall>k. effective_limit a l = Num k \<and> 0 \<le> k \<longrightarrow>
              of_nat (length (results (searchAndGetLinks w (Some songName) a l))) \<le> k))"
proof -
  have e2e: "length (results (searchAndGetLinks w (Some songName) a l))
          \<le> length (slice0 (items page) (effective_limit a l))
        \<and> length (results (searchAndGetLinks w (Some songName) a l)) \<le> length (items page)
        \<and> (\<forall>k. effective_limit a l = Num k \<and> 0 \<le> k \<longrightarrow>
              of_nat (length (results (searchAndGetLinks w (Some songName) a l))) \<le> k)"
    if h: "songName \<noteq> []" "catalog_search w (resolved_query songName a l) = Inr body"
      "tracks body = Some page"
  proof -
    have r: "length (results (searchAndGetLinks w (Some songName) a l))
          \<le> length (slice0 (items page) (effective_limit a l))"
      using h by (rule results_length_le)
    have n: "length (results (searchAndGetLinks w (Some songName) a l)) \<le> length (items page)"
      using r slice0_length_le [of "items page" "effective_limit a l"] by linarith
    have k: "of_nat (length (results (searchAndGetLinks w (Some songName) a l))) \<le> k"
      if "effective_limit a l = Num k" "0 \<le> k" for k
    proof -
      have "(of_nat (length (results (searchAndGetLinks w (Some songName) a l))) :: rat)
              \<le> of_nat (length (slice0 (items page) (Num k)))"
        using r that(1) by simp
      also have "\<dots> \<le> k" using that(2) by (rule slice0_length_le_limit)
      finally show ?thesis .
    qed
    show ?thesis using r n k by blast
  qed
  show ?thesis
    using slice0_zero_trunc [of q xs] slice0_all [of xs q]
      slice0_special [of xs] slice0_length_le [of xs L] slice0_length_le_limit [of q xs] e2e
    by blast
qed

theorem slice_limit_bounds_witness:
  "slice0 demo_tracks (Num 0) = []
   \<and> slice0 demo_tracks (Num 3) = demo_tracks
   \<and> length (results (searchAndGetLinks demo_world (Some ''Hello'') (ArgNumber (Num 2)) None)) \<le> 3
   \<and> (of_nat (length (results (searchAndGetLinks demo_world (Some ''Hello'') (ArgNumber (Num 2)) None))) :: rat)
        \<le> 2"
proof -
  have n: "''Hello'' \<noteq> []" by simp
  have len: "length demo_tracks = 3" by (simp add: demo_tracks_def)
  have lim: "effective_limit (ArgNumber (Num 2)) None = Num 2" by (simp add: demo_effective_limit)
  note t0 = slice_limit_bounds [where q = 0 and xs = demo_tracks and L = NaN
      and songName = "[]" and w = demo_world and a = ArgUndefined and l = None
      and body = "\<lparr> tracks = None \<rparr>" and page = "\<lparr> items = [] \<rparr>"]
  note t3 = slice_limit_bounds [where q = 3 and xs = demo_tracks and L = NaN
      and songName = "[]" and w = demo_world and a = ArgUndefined and l = None
      and body = "\<lparr> tracks = None \<rparr>" and page = "\<lparr> items = [] \<rparr>"]
  note tr = slice_limit_bounds [where q = 0 and xs = demo_tracks and L = NaN
      and songName = "''Hello''" and w = demo_world
      and a = "ArgNumber (Num 2)" and l = None
      and body = "\<lparr> tracks = Some \<lparr> items = demo_tracks \<rparr> \<rparr>"
      and page = "\<lparr> items = demo_tracks \<rparr>"]
  have a: "slice0 demo_tracks (Num 0) = []" using t0 by simp
  have b: "slice0 demo_tracks (Num 3) = demo_tracks" using t3 len by simp
  have c: "length (results (searchAndGetLinks demo_world (Some ''Hello'') (ArgNumber (Num 2)) None)) \<le> 3
     \<and> (of_nat (length (results (searchAndGetLinks demo_world (Some ''Hello'') (ArgNumber (Num 2)) None))) :: rat) \<le> 2"
    using tr n demo_catalog len lim by simp
  show ?thesis using a b c by simp
qed

theorem negative_limit_retains_candidates_counterexample:
  "effective_limit (ArgNumber (Num (- 1))) None = Num (- 1)
   \<and> (- 1 :: rat) \<le> 0
   \<and> length demo_tracks = 3
   \<and> slice0 demo_tracks (Num (- 1)) = take 2 demo_tracks
   \<and> length (slice0 demo_tracks (Num (- 1))) = 2
   \<and> length (results (searchAndGetLinks demo_world (Some ''Hello'') (ArgNumber (Num (- 1))) None)) = 2
   \<and> slice0 demo_tracks (Num (- 3)) = []
   \<and> \<not> (of_nat (length (results
          (searchAndGetLinks demo_world (Some ''Hello'') (ArgNumber (Num (- 3))) None))) :: rat)
        \<le> - 3"
proof -
  have a: "slice0 demo_tracks (Num (- 3)) = []"
    by (simp add: slice0_def demo_tracks_def ceiling_minus)
  have b: "length (results
          (searchAndGetLinks demo_world (Some ''Hello'') (ArgNumber (Num (- 3))) None)) = 0"
    by (simp add: demo_results_length demo_effective_limit a)
  have c: "effective_limit (ArgNumber (Num (- 1))) None = Num (- 1)
   \<and> (- 1 :: rat) \<le> 0
   \<and> length demo_tracks = 3
   \<and> slice0 demo_tracks (Num (- 1)) = take 2 demo_tracks
   \<and> length (slice0 demo_tracks (Num (- 1))) = 2
   \<and> length (results (searchAndGetLinks demo_world (Some ''Hello'') (ArgNumber (Num (- 1))) None)) = 2"
    by (simp add: demo_results_length demo_effective_limit demo_slices) (simp add: demo_tracks_def)
  show ?thesis using a b c by simp
qed

text \<open>
  C3 (as amended). When the second argument is a non-empty string, the search query is
  \<open>track:"<songName>" artist:"<artist>"\<close> with both values embedded verbatim, and so
  contains the substrings \<open>track:"\<close> and \<open>artist:"\<close>. When the second argument is not a
  string, or is the empty string, the query is the song name unmodified. A successful call
  reports this query in \<open>searchQuery\<close>.
\<close>

theorem search_query_construction:
  "(art \<noteq> [] \<longrightarrow>
      resolved_query songName (ArgString art) l =
        ''track:'' @ [dquote] @ songName @ [dquote] @ '' artist:'' @ [dquote] @ art @ [dquote]
      \<and> str_includes (resolved_query songName (ArgString art) l) (''track:'' @ [dquote])
      \<and> str_includes (resolved_query songName (ArgString art) l) (''artist:'' @ [dquote]))
   \<and> ((\<forall>x. a = ArgString x \<longrightarrow> x = []) \<longrightarrow> resolved_query songName a l = songName)
   \<and> (success (searchAndGetLinks w (Some songName) a l) \<longrightarrow>
        searchQuery (searchAndGetLinks w (Some songName) a l) = Some (resolved_query songName a l))
   \<and> dquote = CHR 0x22"
proof -
  have q: "resolved_query songName (ArgString art) l =
        ''track:'' @ [dquote] @ songName @ [dquote] @ '' artist:'' @ [dquote] @ art @ [dquote]"
    if "art \<noteq> []"
    using that by (simp add: resolved_query_def parse_parameters_def build_searchQuery_def)
  have i1: "str_includes
      (''track:'' @ [dquote] @ songName @ [dquote] @ '' artist:'' @ [dquote] @ art @ [dquote])
      (''track:'' @ [dquote])"
    unfolding str_includes_iff
    by (rule exI [of _ "[]"], rule exI [of _ "songName @ [dquote] @ '' artist:'' @ [dquote] @ art @ [dquote]"])
       simp
  have i2: "str_includes
      (''track:'' @ [dquote] @ songName @ [dquote] @ '' artist:'' @ [dquote] @ art @ [dquote])
      (''artist:'' @ [dquote])"
    unfolding str_includes_iff
    by (rule exI [of _ "''track:'' @ [dquote] @ songName @ [dquote] @ '' ''"],
        rule exI [of _ "art @ [dquote]"]) simp
  have raw: "resolved_query songName a l = songName" if "\<forall>x. a = ArgString x \<longrightarrow> x = []"
    using that
    by (cases a) (simp_all add: resolved_query_def parse_parameters_def build_searchQuery_def)
  have sq: "searchQuery (searchAndGetLinks w (Some songName) a l) = Some (resolved_query songName a l)"
    if "success (searchAndGetLinks w (Some songName) a l)"
    using success_cases [OF that] by auto
  show ?thesis
    using q i1 i2 raw sq by (simp add: dquote_def)
qed

theorem search_query_construction_witness:
  "resolved_query ''Hello'' (ArgString ''Adele'') None =
     ''track:'' @ [dquote] @ ''Hello'' @ [dquote] @ '' artist:'' @ [dquote] @ ''Adele'' @ [dquote]
   \<and> str_includes (resolved_query ''Hello'' (ArgString ''Adele'') None) (''track:'' @ [dquote])
   \<and> str_includes (resolved_query ''Hello'' (ArgString ''Adele'') None) (''artist:'' @ [dquote])
   \<and> resolved_query ''Hello'' (ArgNumber (Num 3)) None = ''Hello''
   \<and> searchQuery (searchAndGetLinks demo_world (Some ''Hello'') (ArgNumber (Num 3)) None) =
       Some ''Hello''"
proof -
  have s: "success (searchAndGetLinks demo_world (Some ''Hello'') (ArgNumber (Num 3)) None)"
    by (simp add: demo_run)
  show ?thesis
    using s search_query_construction
            [of "''Adele''" "''Hello''" None "ArgNumber (Num 3)" demo_world]
    by simp
qed

theorem string_second_argument_counterexample:
  "resolved_query ''Hello'' (ArgString []) None = ''Hello''
   \<and> \<not> str_includes ''Hello'' (''track:'' @ [dquote])
   \<and> success (searchAndGetLinks demo_world (Some ''Hello'') (ArgString []) None)
   \<and> searchQuery (searchAndGetLinks demo_world (Some ''Hello'') (ArgString []) None) =
       Some ''Hello''"
  by (simp add: demo_run resolved_query_def parse_parameters_def build_searchQuery_def dquote_def)

text \<open>
  C4 (as amended). Every returned \<open>SearchResult\<close> is of exactly one of two kinds:
  \<open>success = true\<close> with \<open>searchQuery\<close> set and \<open>error\<close> unset, or \<open>success = false\<close> with
  \<open>error\<close> set and \<open>results = []\<close>. \<open>results\<close> is a field of every outcome. A successful
  result has an empty \<open>results\<close> only when the effective limit retains no candidate of a
  non-empty catalog answer.
\<close>

theorem search_result_shape:
  "(success (searchAndGetLinks w s a l) \<longrightarrow>
      error (searchAndGetLinks w s a l) = None
      \<and> (\<exists>q. searchQuery (searchAndGetLinks w s a l) = Some q))
   \<and> (\<not> success (searchAndGetLinks w s a l) \<longrightarrow>
      (\<exists>m. error (searchAndGetLinks w s a l) = Some m)
      \<and> results (searchAndGetLinks w s a l) = []
      \<and> searchQuery (searchAndGetLinks w s a l) = None)
   \<and> (success (searchAndGetLinks w s a l) \<and> results (searchAndGetLinks w s a l) = [] \<longrightarrow>
      (\<exists>songName body page. s = Some songName
         \<and> catalog_search w (resolved_query songName a l) = Inr body
         \<and> tracks body = Some page \<and> items page \<noteq> []
         \<and> slice0 (items page) (effective_limit a l) = []))"
proof -
  have a: "error (searchAndGetLinks w s a l) = None
      \<and> (\<exists>q. searchQuery (searchAndGetLinks w s a l) = Some q)"
    if "success (searchAndGetLinks w s a l)"
    using that result_shape [of w s a l] by (auto simp: failure_result_def)
  have b: "(\<exists>m. error (searchAndGetLinks w s a l) = Some m)
      \<and> results (searchAndGetLinks w s a l) = []
      \<and> searchQuery (searchAndGetLinks w s a l) = None"
    if "\<not> success (searchAndGetLinks w s a l)"
    using that result_shape [of w s a l] by (auto simp: failure_result_def)
  have c: "\<exists>songName body page. s = Some songName
         \<and> catalog_search w (resolved_query songName a l) = Inr body
         \<and> tracks body = Some page \<and> items page \<noteq> []
         \<and> slice0 (items page) (effective_limit a l) = []"
    if "success (searchAndGetLinks w s a l)" "results (searchAndGetLinks w s a l) = []"
  proof -
    from success_cases [OF that(1)] obtain songName body page rs where
      h: "s = Some songName" "catalog_search w (resolved_query songName a l) = Inr body"
         "tracks body = Some page" "items page \<noteq> []"
         "map (track_info w) (slice0 (items page) (effective_limit a l)) = map Inr rs"
         "searchAndGetLinks w s a l =
            \<lparr> success = True, searchQuery = Some (resolved_query songName a l),
              results = rs, error = None \<rparr>"
      by blast
    have "rs = []" using h(6) that(2) by simp
    then have "slice0 (items page) (effective_limit a l) = []" using h(5) by simp
    then show ?thesis using h by blast
  qed
  show ?thesis using a b c by blast
qed

theorem search_result_shape_witness:
  "error (searchAndGetLinks demo_world (Some ''Hello'') ArgUndefined None) = None
   \<and> results (searchAndGetLinks demo_world None ArgUndefined None) = []
   \<and> (\<exists>m. error (searchAndGetLinks demo_world None ArgUndefined None) = Some m)"
proof -
  have s: "success (searchAndGetLinks demo_world (Some ''Hello'') ArgUndefined None)"
    by (simp add: demo_run)
  have f: "\<not> success (searchAndGetLinks demo_world None ArgUndefined None)"
    using catch_Inl [OF try_no_name, of None demo_world ArgUndefined None]
    by (simp add: failure_result_def)
  show ?thesis
    using s f search_result_shape [of demo_world "Some ''Hello''" ArgUndefined None]
      search_result_shape [of demo_world None ArgUndefined None]
    by blast
qed

theorem success_with_empty_results_counterexample:
  "searchAndGetLinks demo_world (Some ''Hello'') (ArgNumber (Num 0)) None =
     \<lparr> success = True, searchQuery = Some ''Hello'', results = [], error = None \<rparr>
   \<and> \<not> (results (searchAndGetLinks demo_world (Some ''Hello'') (ArgNumber (Num 0)) None) \<noteq> []
          \<and> success (searchAndGetLinks demo_world (Some ''Hello'') (ArgNumber (Num 0)) None))
   \<and> \<not> (error (searchAndGetLinks demo_world (Some ''Hello'') (ArgNumber (Num 0)) None) \<noteq> None
          \<and> \<not> success (searchAndGetLinks demo_world (Some ''Hello'') (ArgNumber (Num 0)) None))"
  by (simp add: demo_run demo_effective_limit demo_slices resolved_query_def
      parse_parameters_def build_searchQuery_def)

text \<open>
  C5 (as amended). If the extraction of at least one retained candidate fails, the call
  resolves to \<open>success = false\<close> with \<open>results = []\<close>, whatever the other extractions
  did, and \<open>error\<close> is the message of a failed extraction: that of the extraction whose
  rejection settles first, which is the given extraction's own message whenever no other
  failed extraction carries a different one. The message of a failed extraction is
  \<open>"Failed to fetch preview URLs: "\<close> followed by the underlying \<open>Error\<close>'s message, or by
  \<open>"Unknown error"\<close> when the caught value is not an \<open>Error\<close>.
\<close>

theorem extraction_failure_aborts_call:
  assumes "songName \<noteq> []"
    and "catalog_search w (resolved_query songName a l) = Inr body"
    and "tracks body = Some page" and "items page \<noteq> []"
    and "t \<in> set (slice0 (items page) (effective_limit a l))"
    and "getSpotifyLinks_try w (external_urls_spotify t) = Inl u"
  shows "getSpotifyLinks w (external_urls_spotify t) =
           Inl (JsError (''Failed to fetch preview URLs: '' @ errorMessage u))
     \<and> success (searchAndGetLinks w (Some songName) a l) = False
     \<and> results (searchAndGetLinks w (Some songName) a l) = []
     \<and> (\<exists>t' u'. t' \<in> set (slice0 (items page) (effective_limit a l))
            \<and> getSpotifyLinks_try w (external_urls_spotify t') = Inl u'
            \<and> searchAndGetLinks w (Some songName) a l =
                 failure_result (''Failed to fetch preview URLs: '' @ errorMessage u'))
     \<and> ((\<forall>t' \<in> set (slice0 (items page) (effective_limit a l)).
            \<forall>u'. getSpotifyLinks_try w (external_urls_spotify t') = Inl u' \<longrightarrow>
                 errorMessage u' = errorMessage u) \<longrightarrow>
          searchAndGetLinks w (Some songName) a l =
            failure_result (''Failed to fetch preview URLs: '' @ errorMessage u))
     \<and> (\<forall>e. first_rejected
                (settle_order w @ [0..<length (slice0 (items page) (effective_limit a l))])
                (map (track_info w) (slice0 (items page) (effective_limit a l))) = Some e \<longrightarrow>
              searchAndGetLinks w (Some songName) a l = failure_result (errorMessage e))"
proof -
  let ?retained = "slice0 (items page) (effective_limit a l)"
  let ?R = "searchAndGetLinks w (Some songName) a l"
  have g: "getSpotifyLinks w (external_urls_spotify t) =
           Inl (JsError (''Failed to fetch preview URLs: '' @ errorMessage u))"
    using assms(6) by (simp add: getSpotifyLinks_def)
  have ti: "track_info w t = Inl (JsError (''Failed to fetch preview URLs: '' @ errorMessage u))"
    using assms(6) by (simp add: track_info_Inl_iff)
  from extraction_failure [OF assms(1-5) ti] obtain t' e' where
    t': "t' \<in> set ?retained" "track_info w t' = Inl e'" "?R = failure_result (errorMessage e')"
    by blast
  from t'(2) obtain u' where
    u': "getSpotifyLinks_try w (external_urls_spotify t') = Inl u'"
        "e' = JsError (''Failed to fetch preview URLs: '' @ errorMessage u')"
    by (auto simp: track_info_Inl_iff)
  have R: "?R = failure_result (''Failed to fetch preview URLs: '' @ errorMessage u')"
    using t'(3) u'(2) by (simp add: errorMessage_def)
  have shape: "success ?R = False \<and> results ?R = []"
    using R by (simp add: failure_result_def)
  have ex: "\<exists>t' u'. t' \<in> set ?retained
            \<and> getSpotifyLinks_try w (external_urls_spotify t') = Inl u'
            \<and> ?R = failure_result (''Failed to fetch preview URLs: '' @ errorMessage u')"
    using t'(1) u'(1) R by blast
  have same: "?R = failure_result (''Failed to fetch preview URLs: '' @ errorMessage u)"
    if "\<forall>t' \<in> set ?retained.
            \<forall>u'. getSpotifyLinks_try w (external_urls_spotify t') = Inl u' \<longrightarrow>
                 errorMessage u' = errorMessage u"
  proof -
    have "errorMessage u' = errorMessage u" using that t'(1) u'(1) by blast
    then show ?thesis using R by simp
  qed
  have first: "?R = failure_result (errorMessage e)"
    if "first_rejected (settle_order w @ [0..<length ?retained])
          (map (track_info w) ?retained) = Some e" for e
  proof -
    have "Promise_all (settle_order w) (map (track_info w) ?retained) = Inl e"
      using that by (simp add: Promise_all_def)
    then show ?thesis using reached_extraction [OF assms(1-4)] by simp
  qed
  show ?thesis using g shape ex same first by blast
qed

theorem extraction_failure_aborts_call_witness:
  "searchAndGetLinks
       (demo_world\<lparr>axios_get := (\<lambda>url. if url = ''u2'' then Inl NonError else Inr url)\<rparr>)
       (Some ''Hello'') ArgUndefined None =
     \<lparr> success = False, searchQuery = None, results = [],
       error = Some ''Failed to fetch preview URLs: Unknown error'' \<rparr>"
proof -
  let ?w = "demo_world\<lparr>axios_get := (\<lambda>url. if url = ''u2'' then Inl NonError else Inr url)\<rparr>"
  let ?t = "demo_tracks ! 1"
  have n: "''Hello'' \<noteq> []" by simp
  have cat: "catalog_search ?w (resolved_query ''Hello'' ArgUndefined None)
               = Inr \<lparr> tracks = Some \<lparr> items = demo_tracks \<rparr> \<rparr>"
    by (simp add: catalog_search_def createSpotifyApi_def demo_world_def)
  have tr: "tracks \<lparr> tracks = Some \<lparr> items = demo_tracks \<rparr> \<rparr> = Some \<lparr> items = demo_tracks \<rparr>"
    by simp
  have ne: "items \<lparr> items = demo_tracks \<rparr> \<noteq> []" by (simp add: demo_tracks_def)
  have sl: "slice0 (items \<lparr> items = demo_tracks \<rparr>) (effective_limit ArgUndefined None) = demo_tracks"
    by (simp add: demo_effective_limit demo_slice5)
  have mem: "?t \<in> set (slice0 (items \<lparr> items = demo_tracks \<rparr>) (effective_limit ArgUndefined None))"
    unfolding sl by (simp add: demo_tracks_def)
  have url: "external_urls_spotify ?t = ''u2''" by (simp add: demo_tracks_def)
  have fail: "getSpotifyLinks_try ?w (external_urls_spotify ?t) = Inl NonError"
    unfolding url by (simp add: getSpotifyLinks_try_def demo_world_def)
  have only: "\<forall>t' \<in> set (slice0 (items \<lparr> items = demo_tracks \<rparr>) (effective_limit ArgUndefined None)).
            \<forall>u'. getSpotifyLinks_try ?w (external_urls_spotify t') = Inl u' \<longrightarrow>
                 errorMessage u' = errorMessage NonError"
    unfolding sl by (simp add: demo_tracks_def getSpotifyLinks_try_def demo_world_def)
  have "searchAndGetLinks ?w (Some ''Hello'') ArgUndefined None =
          failure_result (''Failed to fetch preview URLs: '' @ errorMessage NonError)"
    using extraction_failure_aborts_call [OF n cat tr ne mem fail] only by blast
  then show ?thesis by (simp add: failure_result_def errorMessage_def)
qed

theorem two_failed_extractions_counterexample:
  "slice0 demo_tracks (effective_limit ArgUndefined None) = demo_tracks
   \<and> external_urls_spotify (demo_tracks ! 0) = ''u1''
   \<and> getSpotifyLinks (demo_world\<lparr>axios_get := (\<lambda>url. Inl (JsError url))\<rparr>) ''u1'' =
       Inl (JsError ''Failed to fetch preview URLs: u1'')
   \<and> searchAndGetLinks (demo_world\<lparr>axios_get := (\<lambda>url. Inl (JsError url))\<rparr>)
       (Some ''Hello'') ArgUndefined None =
     \<lparr> success = False, searchQuery = None, results = [],
       error = Some ''Failed to fetch preview URLs: u3'' \<rparr>"
proof -
  let ?w = "demo_world\<lparr>axios_get := (\<lambda>url. Inl (JsError url))\<rparr>"
  have n: "''Hello'' \<noteq> []" by simp
  have cat: "catalog_search ?w (resolved_query ''Hello'' ArgUndefined None)
               = Inr \<lparr> tracks = Some \<lparr> items = demo_tracks \<rparr> \<rparr>"
    by (simp add: catalog_search_def createSpotifyApi_def demo_world_def)
  have tr: "tracks \<lparr> tracks = Some \<lparr> items = demo_tracks \<rparr> \<rparr> = Some \<lparr> items = demo_tracks \<rparr>"
    by simp
  have ne: "items \<lparr> items = demo_tracks \<rparr> \<noteq> []" by (simp add: demo_tracks_def)
  have sl: "slice0 demo_tracks (effective_limit ArgUndefined None) = demo_tracks"
    by (simp add: demo_effective_limit demo_slice5)
  have g: "getSpotifyLinks ?w url = Inl (JsError (''Failed to fetch preview URLs: '' @ url))" for url
    by (simp add: getSpotifyLinks_def getSpotifyLinks_try_def errorMessage_def demo_world_def)
  have ti: "track_info ?w t =
      Inl (JsError (''Failed to fetch preview URLs: '' @ external_urls_spotify t))" for t
    by (simp add: track_info_def g)
  have ord: "settle_order ?w = [2, 1, 0]" by (simp add: demo_world_def)
  have len: "length demo_tracks = 3" by (simp add: demo_tracks_def)
  have u3: "external_urls_spotify (demo_tracks ! 2) = ''u3''" by (simp add: demo_tracks_def)
  have pa: "Promise_all (settle_order ?w) (map (track_info ?w) demo_tracks) =
      Inl (JsError ''Failed to fetch preview URLs: u3'')"
    unfolding ord by (simp add: Promise_all_def len ti u3)
  have "searchAndGetLinks ?w (Some ''Hello'') ArgUndefined None =
      failure_result (errorMessage (JsError ''Failed to fetch preview URLs: u3''))"
    using reached_extraction [OF n cat tr ne] sl pa by simp
  then show ?thesis
    using sl g [of "''u1''"] by (simp add: failure_result_def errorMessage_def demo_tracks_def)
qed

text \<open>
  C6. When the document is fetched and parsed, \<open>getSpotifyLinks\<close> returns exactly the
  attribute values of its elements that contain the marker \<open>p.scdn.co\<close>, each once, in the
  order of their first occurrence in the scan (\<open>remdups\<close> keeps the last copy of every
  value, so between two reversals it keeps the first). The empty sequence is returned
  exactly when the fetch succeeded and no attribute value contains the marker.
\<close>

theorem getSpotifyLinks_distinct_matches_in_scan_order:
  "(axios_get w url = Inr html \<and> cheerio_load w html = Inr els \<longrightarrow>
      (\<exists>links. getSpotifyLinks w url = Inr links
         \<and> set links = {v \<in> set (attribute_values els). str_includes v ''p.scdn.co''}
         \<and> distinct links
         \<and> links = rev (remdups (rev (filter (\<lambda>v. str_includes v ''p.scdn.co'')
                                            (attribute_values els))))
         \<and> (links = [] \<longleftrightarrow>
              (\<forall>v \<in> set (attribute_values els). \<not> str_includes v ''p.scdn.co''))))
   \<and> (getSpotifyLinks w url = Inr [] \<longleftrightarrow>
        (\<exists>html els. axios_get w url = Inr html \<and> cheerio_load w html = Inr els
           \<and> (\<forall>v \<in> set (attribute_values els). \<not> str_includes v ''p.scdn.co'')))"
proof -
  let ?m = "\<lambda>v. str_includes v ''p.scdn.co''"
  have empty_iff: "rev (remdups (rev (filter ?m vs))) = [] \<longleftrightarrow> (\<forall>v \<in> set vs. \<not> ?m v)" for vs
    by (auto simp: filter_empty_conv)
  have part1: "\<exists>links. getSpotifyLinks w url = Inr links
         \<and> set links = {v \<in> set (attribute_values els). ?m v}
         \<and> distinct links
         \<and> links = rev (remdups (rev (filter ?m (attribute_values els))))
         \<and> (links = [] \<longleftrightarrow> (\<forall>v \<in> set (attribute_values els). \<not> ?m v))"
    if h: "axios_get w url = Inr html" "cheerio_load w html = Inr els"
  proof -
    let ?links = "rev (remdups (rev (filter ?m (attribute_values els))))"
    have "getSpotifyLinks w url = Inr ?links" using h by (rule getSpotifyLinks_success)
    moreover have "set ?links = {v \<in> set (attribute_values els). ?m v}" by auto
    moreover have "distinct ?links" by simp
    moreover have "?links = [] \<longleftrightarrow> (\<forall>v \<in> set (attribute_values els). \<not> ?m v)"
      by (rule empty_iff)
    ultimately show ?thesis by blast
  qed
  have part2: "getSpotifyLinks w url = Inr [] \<longleftrightarrow>
        (\<exists>html els. axios_get w url = Inr html \<and> cheerio_load w html = Inr els
           \<and> (\<forall>v \<in> set (attribute_values els). \<not> ?m v))"
  proof
    assume e: "getSpotifyLinks w url = Inr []"
    then obtain html els where h: "axios_get w url = Inr html" "cheerio_load w html = Inr els"
      using getSpotifyLinks_Inr_fetch by blast
    have "rev (remdups (rev (filter ?m (attribute_values els)))) = []"
      using getSpotifyLinks_success [OF h] e by simp
    then have "\<forall>v \<in> set (attribute_values els). \<not> ?m v" by (simp only: empty_iff)
    then show "\<exists>html els. axios_get w url = Inr html \<and> cheerio_load w html = Inr els
           \<and> (\<forall>v \<in> set (attribute_values els). \<not> ?m v)"
      using h by blast
  next
    assume "\<exists>html els. axios_get w url = Inr html \<and> cheerio_load w html = Inr els
           \<and> (\<forall>v \<in> set (attribute_values els). \<not> ?m v)"
    then obtain html els where h: "axios_get w url = Inr html" "cheerio_load w html = Inr els"
      and no: "\<forall>v \<in> set (attribute_values els). \<not> ?m v"
      by blast
    have "rev (remdups (rev (filter ?m (attribute_values els)))) = []"
      using no by (simp only: empty_iff)
    then show "getSpotifyLinks w url = Inr []"
      using getSpotifyLinks_success [OF h] by simp
  qed
  show ?thesis using part1 part2 by blast
qed

theorem getSpotifyLinks_distinct_matches_in_scan_order_witness:
  "attribute_values (demo_page ''u1'') =
     [''player'', ''//p.scdn.co/u1'', ''//p.scdn.co/alt'', ''//p.scdn.co/u1'']
   \<and> getSpotifyLinks demo_world ''u1'' = Inr [''//p.scdn.co/u1'', ''//p.scdn.co/alt'']
   \<and> getSpotifyLinks (demo_world\<lparr>cheerio_load := (\<lambda>html. Inr [\<lparr> attribs = Some [(''class'', ''player'')] \<rparr>])\<rparr>)
       ''u1'' = Inr []"
proof -
  let ?w = "demo_world\<lparr>cheerio_load := (\<lambda>html. Inr [\<lparr> attribs = Some [(''class'', ''player'')] \<rparr>])\<rparr>"
  have av: "attribute_values (demo_page ''u1'') =
     [''player'', ''//p.scdn.co/u1'', ''//p.scdn.co/alt'', ''//p.scdn.co/u1'']"
    by (simp add: attribute_values_def demo_page_def Object_values_def)
  have f: "axios_get demo_world ''u1'' = Inr ''u1''"
    and p: "cheerio_load demo_world ''u1'' = Inr (demo_page ''u1'')"
    by (simp_all add: demo_world_def)
  have f2: "axios_get ?w ''u1'' = Inr ''u1''"
    and p2: "cheerio_load ?w ''u1'' = Inr [\<lparr> attribs = Some [(''class'', ''player'')] \<rparr>]"
    by (simp_all add: demo_world_def)
  have none: "\<forall>v \<in> set (attribute_values [\<lparr> attribs = Some [(''class'', ''player'')] \<rparr>]).
                \<not> str_includes v ''p.scdn.co''"
    by (simp add: attribute_values_def Object_values_def)
  note t1 = getSpotifyLinks_distinct_matches_in_scan_order
      [where w = demo_world and url = "''u1''" and html = "''u1''" and els = "demo_page ''u1''"]
  note t2 = getSpotifyLinks_distinct_matches_in_scan_order
      [where w = ?w and url = "''u1''" and html = "''u1''"
         and els = "[\<lparr> attribs = Some [(''class'', ''player'')] \<rparr>]"]
  have a: "getSpotifyLinks demo_world ''u1'' =
      Inr (rev (remdups (rev (filter (\<lambda>v. str_includes v ''p.scdn.co'')
             [''player'', ''//p.scdn.co/u1'', ''//p.scdn.co/alt'', ''//p.scdn.co/u1'']))))"
    using t1 f p unfolding av by auto
  have b: "getSpotifyLinks ?w ''u1'' = Inr []"
    using t2 f2 p2 none by blast
  show ?thesis using av a b by simp
qed

text \<open>
  C7. In a successful call, \<open>results\<close> has one entry per retained candidate, in the order
  of the retained candidates: entry \<open>i\<close> is built from candidate \<open>i\<close>, with its name made of
  the candidate's title, \<open>" - "\<close>, and its artists' names joined by \<open>", "\<close> in catalog order,
  and with the preview URLs extracted from that candidate's page. The order in which the
  extractions settle has no influence on the result.
\<close>

theorem results_follow_candidate_order:
  assumes "success (searchAndGetLinks w s a l)"
  shows "\<exists>songName body page. s = Some songName
      \<and> catalog_search w (resolved_query songName a l) = Inr body
      \<and> tracks body = Some page
      \<and> length (results (searchAndGetLinks w s a l)) =
          length (slice0 (items page) (effective_limit a l))
      \<and> (\<forall>i < length (slice0 (items page) (effective_limit a l)).
            track_info w (slice0 (items page) (effective_limit a l) ! i) =
              Inr (results (searchAndGetLinks w s a l) ! i)
            \<and> name (results (searchAndGetLinks w s a l) ! i) =
                track_name (slice0 (items page) (effective_limit a l) ! i) @ '' - '' @
                join '', '' (map artist_name
                               (artists (slice0 (items page) (effective_limit a l) ! i)))
            \<and> trackId (results (searchAndGetLinks w s a l) ! i) =
                track_id (slice0 (items page) (effective_limit a l) ! i)
            \<and> spotifyUrl (results (searchAndGetLinks w s a l) ! i) =
                external_urls_spotify (slice0 (items page) (effective_limit a l) ! i)
            \<and> getSpotifyLinks w
                  (external_urls_spotify (slice0 (items page) (effective_limit a l) ! i)) =
                Inr (previewUrls (results (searchAndGetLinks w s a l) ! i)))
      \<and> (\<forall>order. searchAndGetLinks (w\<lparr>settle_order := order\<rparr>) s a l =
                    searchAndGetLinks w s a l)"
proof -
  from success_cases [OF assms] obtain songName body page rs where
    h: "s = Some songName" "songName \<noteq> []"
       "catalog_search w (resolved_query songName a l) = Inr body"
       "tracks body = Some page" "items page \<noteq> []"
       "map (track_info w) (slice0 (items page) (effective_limit a l)) = map Inr rs"
       "searchAndGetLinks w s a l =
          \<lparr> success = True, searchQuery = Some (resolved_query songName a l),
            results = rs, error = None \<rparr>"
    by blast
  let ?retained = "slice0 (items page) (effective_limit a l)"
  have rs: "results (searchAndGetLinks w s a l) = rs" using h(7) by simp
  have len: "length rs = length ?retained" using h(6) by (metis length_map)
  have nth: "track_info w (?retained ! i) = Inr (rs ! i)" if "i < length ?retained" for i
  proof -
    have "map (track_info w) ?retained ! i = map Inr rs ! i" using h(6) by simp
    then show ?thesis using that len by simp
  qed
  have fields: "track_info w (?retained ! i) = Inr (rs ! i)
      \<and> name (rs ! i) = track_name (?retained ! i) @ '' - '' @
            join '', '' (map artist_name (artists (?retained ! i)))
      \<and> trackId (rs ! i) = track_id (?retained ! i)
      \<and> spotifyUrl (rs ! i) = external_urls_spotify (?retained ! i)
      \<and> getSpotifyLinks w (external_urls_spotify (?retained ! i)) = Inr (previewUrls (rs ! i))"
    if "i < length ?retained" for i
    using nth [OF that] track_info_Inr_fields [OF nth [OF that]] by simp
  have indep: "searchAndGetLinks (w\<lparr>settle_order := order\<rparr>) s a l = searchAndGetLinks w s a l"
    for order
  proof -
    have c: "catalog_search (w\<lparr>settle_order := order\<rparr>) (resolved_query songName a l) = Inr body"
      using h(3) by (simp add: settle_order_irrelevant)
    have p: "Promise_all (settle_order (w\<lparr>settle_order := order\<rparr>))
               (map (track_info (w\<lparr>settle_order := order\<rparr>)) ?retained) = Inr rs"
      using h(6) by (simp add: Promise_all_Inr_iff settle_order_irrelevant)
    show ?thesis
      using reached_extraction [OF h(2) c h(4) h(5)] p h(7) h(1) by simp
  qed
  show ?thesis
    unfolding rs using h(1,3,4) len fields indep rs by auto
qed

theorem results_follow_candidate_order_witness:
  "map name (results (searchAndGetLinks demo_world (Some ''Hello'') (ArgNumber (Num 2)) None)) =
     [''Shape of You - Ed Sheeran'', ''Under Pressure - Queen, David Bowie'']
   \<and> map trackId (results (searchAndGetLinks demo_world (Some ''Hello'') (ArgNumber (Num 2)) None)) =
     [''t1'', ''t2'']
   \<and> searchAndGetLinks (demo_world\<lparr>settle_order := [0, 1]\<rparr>) (Some ''Hello'') (ArgNumber (Num 2)) None =
       searchAndGetLinks demo_world (Some ''Hello'') (ArgNumber (Num 2)) None"
proof -
  let ?R = "searchAndGetLinks demo_world (Some ''Hello'') (ArgNumber (Num 2)) None"
  have s: "success ?R" by (simp add: demo_run)
  from results_follow_candidate_order [OF s] obtain songName body page where
    h: "Some ''Hello'' = Some songName"
       "catalog_search demo_world (resolved_query songName (ArgNumber (Num 2)) None) = Inr body"
       "tracks body = Some page"
       "length (results ?R) = length (slice0 (items page) (effective_limit (ArgNumber (Num 2)) None))"
       "\<forall>i < length (slice0 (items page) (effective_limit (ArgNumber (Num 2)) None)).
            name (results ?R ! i) =
                track_name (slice0 (items page) (effective_limit (ArgNumber (Num 2)) None) ! i) @ '' - '' @
                join '', '' (map artist_name
                               (artists (slice0 (items page) (effective_limit (ArgNumber (Num 2)) None) ! i)))
            \<and> trackId (results ?R ! i) =
                track_id (slice0 (items page) (effective_limit (ArgNumber (Num 2)) None) ! i)"
       "\<forall>order. searchAndGetLinks (demo_world\<lparr>settle_order := order\<rparr>) (Some ''Hello'') (ArgNumber (Num 2)) None = ?R"
    by blast
  have "body = \<lparr> tracks = Some \<lparr> items = demo_tracks \<rparr> \<rparr>"
    using h(2) by (simp add: demo_catalog)
  then have pg: "items page = demo_tracks" using h(3) by auto
  have sl: "slice0 (items page) (effective_limit (ArgNumber (Num 2)) None) = take 2 demo_tracks"
    unfolding pg by (simp add: demo_effective_limit slice0_def demo_tracks_def)
  have tk: "take 2 demo_tracks = [demo_tracks ! 0, demo_tracks ! 1]"
    by (simp add: demo_tracks_def)
  have l2: "length (results ?R) = 2" using h(4) unfolding sl tk by simp
  have i0: "0 < length (slice0 (items page) (effective_limit (ArgNumber (Num 2)) None))"
    and i1: "1 < length (slice0 (items page) (effective_limit (ArgNumber (Num 2)) None))"
    unfolding sl tk by simp_all
  have n0: "name (results ?R ! 0) = ''Shape of You - Ed Sheeran''"
    and d0: "trackId (results ?R ! 0) = ''t1''"
    using h(5) [rule_format, OF i0] unfolding sl tk by (simp_all add: demo_tracks_def)
  have n1: "name (results ?R ! 1) = ''Under Pressure - Queen, David Bowie''"
    and d1: "trackId (results ?R ! 1) = ''t2''"
    using h(5) [rule_format, OF i1] unfolding sl tk by (simp_all add: demo_tracks_def)
  obtain r0 r1 where r: "results ?R = [r0, r1]"
    using l2 by (auto simp: numeral_2_eq_2 length_Suc_conv)
  have m: "map name (results ?R) = [''Shape of You - Ed Sheeran'', ''Under Pressure - Queen, David Bowie'']"
    using n0 n1 unfolding r by simp
  have t: "map trackId (results ?R) = [''t1'', ''t2'']"
    using d0 d1 unfolding r by simp
  have o: "searchAndGetLinks (demo_world\<lparr>settle_order := [0, 1]\<rparr>) (Some ''Hello'') (ArgNumber (Num 2)) None = ?R"
    using h(6) by (rule spec)
  show ?thesis using m t o by (intro conjI)
qed

text \<open>
  C8. When the catalog search reports zero matches (the \<open>tracks\<close> field absent, or its
  item sequence empty), the \<open>try\<close> block returns
  \<open>{success: false, error: "No songs found", results: []}\<close> by a \<open>return\<close>, not by a
  throw, and that object is the result of the call.
\<close>

theorem searchAndGetLinks_no_songs_found:
  assumes "songName \<noteq> []"
    and "catalog_search w (resolved_query songName a l) = Inr body"
    and "tracks body = None \<or> (\<exists>page. tracks body = Some page \<and> items page = [])"
  shows "searchAndGetLinks_try w (Some songName) a l =
           Inr \<lparr> success = False, searchQuery = None, results = [],
                 error = Some ''No songs found'' \<rparr>
       \<and> searchAndGetLinks w (Some songName) a l =
           \<lparr> success = False, searchQuery = None, results = [],
             error = Some ''No songs found'' \<rparr>"
proof -
  have "searchAndGetLinks_try w (Some songName) a l = Inr (failure_result ''No songs found'')"
    using assms by (auto simp: try_valid)
  then show ?thesis
    by (simp add: searchAndGetLinks_def failure_result_def)
qed

theorem searchAndGetLinks_no_songs_found_witness:
  "searchAndGetLinks_try
       (demo_world\<lparr>searchTracks := (\<lambda>token q. Inr \<lparr> tracks = None \<rparr>)\<rparr>)
       (Some ''Hello'') ArgUndefined None =
     Inr \<lparr> success = False, searchQuery = None, results = [],
           error = Some ''No songs found'' \<rparr>
   \<and> searchAndGetLinks
       (demo_world\<lparr>searchTracks := (\<lambda>token q. Inr \<lparr> tracks = Some \<lparr> items = [] \<rparr> \<rparr>)\<rparr>)
       (Some ''Hello'') (ArgString ''Adele'') (Some (Num 2)) =
     \<lparr> success = False, searchQuery = None, results = [],
       error = Some ''No songs found'' \<rparr>"
proof -
  let ?w1 = "demo_world\<lparr>searchTracks := (\<lambda>token q. Inr \<lparr> tracks = None \<rparr>)\<rparr>"
  let ?w2 = "demo_world\<lparr>searchTracks := (\<lambda>token q. Inr \<lparr> tracks = Some \<lparr> items = [] \<rparr> \<rparr>)\<rparr>"
  have c1: "catalog_search ?w1 (resolved_query ''Hello'' ArgUndefined None) = Inr \<lparr> tracks = None \<rparr>"
    by (simp add: catalog_search_def createSpotifyApi_def demo_world_def)
  have c2: "catalog_search ?w2 (resolved_query ''Hello'' (ArgString ''Adele'') (Some (Num 2)))
              = Inr \<lparr> tracks = Some \<lparr> items = [] \<rparr> \<rparr>"
    by (simp add: catalog_search_def createSpotifyApi_def demo_world_def)
  have n: "''Hello'' \<noteq> []" by simp
  show ?thesis
    using searchAndGetLinks_no_songs_found [OF n c1] searchAndGetLinks_no_songs_found [OF n c2]
    by simp
qed

text \<open>
  C9. A call whose \<open>songName\<close> is unsupplied or empty returns exactly
  \<open>{success: false, error: "Song name is required", results: []}\<close>, whatever the other
  arguments and the upstream services are.
\<close>

theorem searchAndGetLinks_song_name_required:
  assumes "s = None \<or> s = Some []"
  shows "searchAndGetLinks w s a l =
           \<lparr> success = False, searchQuery = None, results = [],
             error = Some ''Song name is required'' \<rparr>"
  using assms by (auto simp: searchAndGetLinks_def searchAndGetLinks_try_def errorMessage_def)

theorem searchAndGetLinks_song_name_required_witness:
  "searchAndGetLinks demo_world (Some []) (ArgString ''Adele'') (Some (Num 2)) =
     \<lparr> success = False, searchQuery = None, results = [],
       error = Some ''Song name is required'' \<rparr>
   \<and> searchAndGetLinks demo_world None ArgUndefined None =
     \<lparr> success = False, searchQuery = None, results = [],
       error = Some ''Song name is required'' \<rparr>"
  using searchAndGetLinks_song_name_required [of "Some []" demo_world "ArgString ''Adele''" "Some (Num 2)"]
    searchAndGetLinks_song_name_required [of None demo_world ArgUndefined None]
  by simp

text \<open>
  C10. An empty string as second argument takes the string branch of the parameter
  parsing, so the effective limit is the third argument (5 only when that is not supplied):
  the retained candidates are the slice of the catalog items by that limit. The query sent to
  the catalog is nevertheless the bare song name, because the query is qualified only when
  the artist is truthy: the outcome of the call is decided by what the catalog answers to
  the bare song name, and a successful call reports it as \<open>searchQuery\<close>. Such a call is
  the same as the legacy call with that limit as a number.
\<close>

theorem empty_artist_string_branch_raw_query:
  "parse_parameters (ArgString []) l = (Some [], default_limit l)
   \<and> default_limit None = Num 5
   \<and> default_limit (Some n) = n
   \<and> effective_limit (ArgString []) (Some n) = n
   \<and> resolved_query songName (ArgString []) l = songName
   \<and> searchAndGetLinks_try w s (ArgString []) l =
       searchAndGetLinks_try w s (ArgNumber (default_limit l)) l'
   \<and> searchAndGetLinks w s (ArgString []) l =
       searchAndGetLinks w s (ArgNumber (default_limit l)) l'
   \<and> (\<forall>api token e. songName \<noteq> [] \<and> createSpotifyApi w = Inr api
          \<and> clientCredentialsGrant w api = Inr token
          \<and> searchTracks w token songName = Inl e \<longrightarrow>
        searchAndGetLinks w (Some songName) (ArgString []) l = failure_result (errorMessage e))
   \<and> (\<forall>api token body page. songName \<noteq> [] \<and> createSpotifyApi w = Inr api
          \<and> clientCredentialsGrant w api = Inr token
          \<and> searchTracks w token songName = Inr body
          \<and> tracks body = Some page \<and> items page \<noteq> [] \<longrightarrow>
        searchAndGetLinks w (Some songName) (ArgString []) l =
          (case Promise_all (settle_order w)
                  (map (track_info w) (slice0 (items page) (default_limit l))) of
             Inl e \<Rightarrow> failure_result (errorMessage e)
           | Inr rs \<Rightarrow> \<lparr> success = True, searchQuery = Some songName, results = rs,
                           error = None \<rparr>)
        \<and> (success (searchAndGetLinks w (Some songName) (ArgString []) l) \<longrightarrow>
             searchQuery (searchAndGetLinks w (Some songName) (ArgString []) l) = Some songName
             \<and> length (results (searchAndGetLinks w (Some songName) (ArgString []) l)) =
                 length (slice0 (items page) (default_limit l))))"
proof -
  have q: "resolved_query x (ArgString []) l = resolved_query x (ArgNumber (default_limit l)) l'"
    for x
    by (simp add: resolved_query_def parse_parameters_def build_searchQuery_def)
  have e: "effective_limit (ArgString []) l = effective_limit (ArgNumber (default_limit l)) l'"
    by (simp add: effective_limit_def parse_parameters_def)
  have t: "searchAndGetLinks_try w s (ArgString []) l =
       searchAndGetLinks_try w s (ArgNumber (default_limit l)) l'"
  proof (cases "s = None \<or> s = Some []")
    case True
    then show ?thesis by (simp add: try_no_name)
  next
    case False
    then obtain x where x: "s = Some x" "x \<noteq> []" by auto
    show ?thesis unfolding x(1) try_valid[OF x(2)] q e ..
  qed
  have old: "parse_parameters (ArgString []) l = (Some [], default_limit l)
   \<and> default_limit None = Num 5
   \<and> default_limit (Some n) = n
   \<and> effective_limit (ArgString []) (Some n) = n
   \<and> resolved_query songName (ArgString []) l = songName
   \<and> searchAndGetLinks_try w s (ArgString []) l =
       searchAndGetLinks_try w s (ArgNumber (default_limit l)) l'
   \<and> searchAndGetLinks w s (ArgString []) l =
       searchAndGetLinks w s (ArgNumber (default_limit l)) l'"
    using t
    by (simp add: searchAndGetLinks_def parse_parameters_def default_limit_def
        effective_limit_def resolved_query_def build_searchQuery_def)
  have rq: "resolved_query songName (ArgString []) l = songName"
    and el: "effective_limit (ArgString []) l = default_limit l"
    by (simp_all add: resolved_query_def effective_limit_def parse_parameters_def
          build_searchQuery_def)
  have cs: "catalog_search w songName = searchTracks w token songName"
    if "createSpotifyApi w = Inr api" "clientCredentialsGrant w api = Inr token" for api token
    using that by (simp add: catalog_search_def)
  have f: "searchAndGetLinks w (Some songName) (ArgString []) l = failure_result (errorMessage e)"
    if h: "songName \<noteq> [] \<and> createSpotifyApi w = Inr api
          \<and> clientCredentialsGrant w api = Inr token
          \<and> searchTracks w token songName = Inl e" for api token e
  proof -
    have "catalog_search w (resolved_query songName (ArgString []) l) = Inl e"
      using h cs [of api token] by (simp add: rq)
    then have "searchAndGetLinks_try w (Some songName) (ArgString []) l = Inl e"
      using h by (simp add: try_valid)
    then show ?thesis by (rule catch_Inl)
  qed
  have g: "searchAndGetLinks w (Some songName) (ArgString []) l =
          (case Promise_all (settle_order w)
                  (map (track_info w) (slice0 (items page) (default_limit l))) of
             Inl e \<Rightarrow> failure_result (errorMessage e)
           | Inr rs \<Rightarrow> \<lparr> success = True, searchQuery = Some songName, results = rs,
                           error = None \<rparr>)
        \<and> (success (searchAndGetLinks w (Some songName) (ArgString []) l) \<longrightarrow>
             searchQuery (searchAndGetLinks w (Some songName) (ArgString []) l) = Some songName
             \<and> length (results (searchAndGetLinks w (Some songName) (ArgString []) l)) =
                 length (slice0 (items page) (default_limit l)))"
    if h: "songName \<noteq> [] \<and> createSpotifyApi w = Inr api
          \<and> clientCredentialsGrant w api = Inr token
          \<and> searchTracks w token songName = Inr body
          \<and> tracks body = Some page \<and> items page \<noteq> []" for api token body page
  proof -
    let ?R = "searchAndGetLinks w (Some songName) (ArgString []) l"
    let ?ps = "map (track_info w) (slice0 (items page) (default_limit l))"
    have n: "songName \<noteq> []" and tr: "tracks body = Some page" and ne: "items page \<noteq> []"
      using h by simp_all
    have c: "catalog_search w (resolved_query songName (ArgString []) l) = Inr body"
      using h cs [of api token] by (simp add: rq)
    have R: "?R = (case Promise_all (settle_order w) ?ps of
             Inl e \<Rightarrow> failure_result (errorMessage e)
           | Inr rs \<Rightarrow> \<lparr> success = True, searchQuery = Some songName, results = rs,
                           error = None \<rparr>)"
      using reached_extraction [OF n c tr ne] unfolding rq el .
    have S: "searchQuery ?R = Some songName
             \<and> length (results ?R) = length (slice0 (items page) (default_limit l))"
      if "success ?R"
    proof (cases "Promise_all (settle_order w) ?ps")
      case (Inl e)
      then show ?thesis using R that by (simp add: failure_result_def)
    next
      case (Inr rs)
      then have "?ps = map Inr rs" by (simp add: Promise_all_Inr_iff)
      then have "length rs = length (slice0 (items page) (default_limit l))"
        by (metis length_map)
      then show ?thesis using R Inr by simp
    qed
    show ?thesis using R S by blast
  qed
  show ?thesis using old f g by blast
qed

theorem empty_artist_string_branch_raw_query_witness:
  "effective_limit (ArgString []) (Some (Num 1)) = Num 1
   \<and> resolved_query ''Hello'' (ArgString []) (Some (Num 1)) = ''Hello''
   \<and> searchAndGetLinks demo_world (Some ''Hello'') (ArgString []) (Some (Num 1)) =
       searchAndGetLinks demo_world (Some ''Hello'') (ArgNumber (Num 1)) None
   \<and> length demo_tracks = 3
   \<and> success (searchAndGetLinks
        (demo_world\<lparr>searchTracks := (\<lambda>token q. if q = ''Hello''
             then Inr \<lparr> tracks = Some \<lparr> items = demo_tracks \<rparr> \<rparr> else Inl (JsError q))\<rparr>)
        (Some ''Hello'') (ArgString []) (Some (Num 1)))
   \<and> searchQuery (searchAndGetLinks
        (demo_world\<lparr>searchTracks := (\<lambda>token q. if q = ''Hello''
             then Inr \<lparr> tracks = Some \<lparr> items = demo_tracks \<rparr> \<rparr> else Inl (JsError q))\<rparr>)
        (Some ''Hello'') (ArgString []) (Some (Num 1))) = Some ''Hello''
   \<and> length (results (searchAndGetLinks
        (demo_world\<lparr>searchTracks := (\<lambda>token q. if q = ''Hello''
             then Inr \<lparr> tracks = Some \<lparr> items = demo_tracks \<rparr> \<rparr> else Inl (JsError q))\<rparr>)
        (Some ''Hello'') (ArgString []) (Some (Num 1)))) = 1"
proof -
  let ?w = "demo_world\<lparr>searchTracks := (\<lambda>token q. if q = ''Hello''
             then Inr \<lparr> tracks = Some \<lparr> items = demo_tracks \<rparr> \<rparr> else Inl (JsError q))\<rparr>"
  let ?R = "searchAndGetLinks ?w (Some ''Hello'') (ArgString []) (Some (Num 1))"
  let ?body = "\<lparr> tracks = Some \<lparr> items = demo_tracks \<rparr> \<rparr>"
  let ?page = "\<lparr> items = demo_tracks \<rparr>"
  note t0 = empty_artist_string_branch_raw_query
      [where l = "Some (Num 1)" and n = "Num 1" and songName = "''Hello''" and w = demo_world
         and s = "Some ''Hello''" and l' = None]
  note t1 = empty_artist_string_branch_raw_query
      [where l = "Some (Num 1)" and n = "Num 1" and songName = "''Hello''" and w = ?w
         and s = "Some ''Hello''" and l' = None]
  have old: "effective_limit (ArgString []) (Some (Num 1)) = Num 1
   \<and> resolved_query ''Hello'' (ArgString []) (Some (Num 1)) = ''Hello''
   \<and> searchAndGetLinks demo_world (Some ''Hello'') (ArgString []) (Some (Num 1)) =
       searchAndGetLinks demo_world (Some ''Hello'') (ArgNumber (Num 1)) None"
    using t0 by (simp add: default_limit_def)
  have len: "length demo_tracks = 3" by (simp add: demo_tracks_def)
  have a: "createSpotifyApi ?w = Inr (''id'', ''secret'')"
    and g: "clientCredentialsGrant ?w (''id'', ''secret'') = Inr ''token''"
    and s: "searchTracks ?w ''token'' ''Hello'' = Inr ?body"
    by (simp_all add: createSpotifyApi_def demo_world_def)
  have ne: "items ?page \<noteq> []" by (simp add: demo_tracks_def)
  have c: "\<forall>api token body page. ''Hello'' \<noteq> [] \<and> createSpotifyApi ?w = Inr api
          \<and> clientCredentialsGrant ?w api = Inr token
          \<and> searchTracks ?w token ''Hello'' = Inr body
          \<and> tracks body = Some page \<and> items page \<noteq> [] \<longrightarrow>
        ?R =
          (case Promise_all (settle_order ?w)
                  (map (track_info ?w) (slice0 (items page) (default_limit (Some (Num 1))))) of
             Inl e \<Rightarrow> failure_result (errorMessage e)
           | Inr rs \<Rightarrow> \<lparr> success = True, searchQuery = Some ''Hello'', results = rs,
                           error = None \<rparr>)
        \<and> (success ?R \<longrightarrow>
             searchQuery ?R = Some ''Hello''
             \<and> length (results ?R) = length (slice0 (items page) (default_limit (Some (Num 1)))))"
    using t1 by (elim conjE)
  note c' = c [rule_format, of "(''id'', ''secret'')" "''token''" ?body ?page]
  have pre: "''Hello'' \<noteq> [] \<and> createSpotifyApi ?w = Inr (''id'', ''secret'')
          \<and> clientCredentialsGrant ?w (''id'', ''secret'') = Inr ''token''
          \<and> searchTracks ?w ''token'' ''Hello'' = Inr ?body
          \<and> tracks ?body = Some ?page \<and> items ?page \<noteq> []"
    using a g s ne by simp
  have ti: "\<forall>p\<in>set (map (track_info ?w) (slice0 (items ?page) (default_limit (Some (Num 1))))).
              \<exists>v. p = Inr v"
    by (simp add: track_info_def getSpotifyLinks_def getSpotifyLinks_try_def demo_world_def Let_def)
  have pa: "Promise_all (settle_order ?w)
              (map (track_info ?w) (slice0 (items ?page) (default_limit (Some (Num 1)))))
            = Inr (fulfilled_values
                (map (track_info ?w) (slice0 (items ?page) (default_limit (Some (Num 1))))))"
    using ti by (rule Promise_all_all_Inr)
  have R: "?R = \<lparr> success = True, searchQuery = Some ''Hello'',
       results = fulfilled_values
                (map (track_info ?w) (slice0 (items ?page) (default_limit (Some (Num 1))))),
       error = None \<rparr>"
    using c' [OF pre, THEN conjunct1] unfolding pa by simp
  have su: "success ?R" unfolding R by simp
  have fin: "searchQuery ?R = Some ''Hello''
       \<and> length (results ?R) = length (slice0 (items ?page) (default_limit (Some (Num 1))))"
    using c' [OF pre, THEN conjunct2] su by blast
  have sl: "length (slice0 (items ?page) (default_limit (Some (Num 1)))) = 1"
    by (simp add: default_limit_def slice0_def demo_tracks_def)
  show ?thesis using old len su fin sl by simp
qed

end
